theory Spec2Isabelle
  imports Complex_Main "HOL-Library.AList" "HOL-Library.Sublist" "HOL-Library.Log_Nat"
begin

section \<open>Python values used by the monitor\<close>

text \<open>
  A Python \<open>str\<close> is a sequence of Unicode code points, so it is a list of naturals
  here (\<open>ord\<close> is the identity on an element); \<open>str\<close> turns a literal into one.
  A Python float is the real number that it stands for, and every float operation of
  the source returns the float nearest to its exact result (\<open>binary64\<close> below). The
  messages that the source prints are not part of the model.
\<close>

type_synonym pystr = "nat list"

definition str :: "string \<Rightarrow> pystr" where
  "str s = map of_char s"

text \<open>The exceptions that the modelled code and its collaborators raise.\<close>

datatype exn =
    PermissionError
  | ZeroDivisionError
  | FileNotFoundError
  | TimeoutExpired
  | JSONDecodeError
  | TypeError
  | KeyError
  | IndexError
  | ValueError
  | OtherException

text \<open>\<open>chr(i)\<close>: a code point, or ValueError outside \<open>range(0x110000)\<close>.\<close>

definition py_chr :: "int \<Rightarrow> exn + nat" where
  "py_chr i = (if 0 \<le> i \<and> i < 1114112 then Inr (nat i) else Inl ValueError)"

text \<open>\<open>s.endswith(t)\<close> and \<open>t in s\<close> on strings.\<close>

definition endswith :: "pystr \<Rightarrow> pystr \<Rightarrow> bool" where
  "endswith s t = suffix t s"

fun contains :: "pystr \<Rightarrow> pystr \<Rightarrow> bool" where
  "contains [] t = (t = [])"
| "contains (c # s) t = (prefix t (c # s) \<or> contains s t)"

text \<open>
  \<open>s.lower()\<close>: the letters A to Z are mapped to a to z. Code points outside ASCII
  are left as they are: Python lower-cases some of them, but never so that one of the
  keywords of the sensor test below appears or disappears.
\<close>

definition lower_char :: "nat \<Rightarrow> nat" where
  "lower_char c = (if 65 \<le> c \<and> c \<le> 90 then c + 32 else c)"

definition lower :: "pystr \<Rightarrow> pystr" where
  "lower s = map lower_char s"

subsection \<open>Floats\<close>

text \<open>The nearest integer, a tie going to the even one.\<close>

definition round_half_even :: "real \<Rightarrow> int" where
  "round_half_even x =
     (let n = \<lfloor>x\<rfloor>; f = x - of_int n
      in if f < 1 / 2 then n
         else if 1 / 2 < f then n + 1
         else if even n then n else n + 1)"

text \<open>
  The binary exponent of a positive number: \<open>2 powi exponent x \<le> x < 2 powi (exponent x + 1)\<close>.
\<close>

definition exponent :: "real \<Rightarrow> int" where
  "exponent x = (if 1 \<le> x then bitlen \<lfloor>x\<rfloor> - 1 else - bitlen (\<lceil>1 / x\<rceil> - 1))"

text \<open>
  The IEEE 754 double nearest to a real number: 53 significant bits, round to nearest,
  ties to even. Overflow and subnormal numbers are left out: the numbers of the monitor are
  quotients and products of byte counts and two-place decimals, far inside the normal
  range.
\<close>

definition binary64 :: "real \<Rightarrow> real" where
  "binary64 x =
     (if x = 0 then 0
      else let e = exponent \<bar>x\<bar>
           in sgn x * of_int (round_half_even (\<bar>x\<bar> * 2 powi (52 - e))) * 2 powi (e - 52))"

text \<open>
  \<open>a / b\<close> on two integers with \<open>b\<close> non-zero (the correctly rounded quotient) and
  \<open>x * y\<close> on two floats.
\<close>

definition true_quotient :: "nat \<Rightarrow> nat \<Rightarrow> real" where
  "true_quotient a b = binary64 (of_nat a / of_nat b)"

definition float_mul :: "real \<Rightarrow> real \<Rightarrow> real" where
  "float_mul x y = binary64 (x * y)"

text \<open>
  \<open>round(x, ndigits)\<close> on a float: the exact value of \<open>x\<close> is rounded to the nearest
  multiple of \<open>10 ^ -ndigits\<close>, a tie going to the even one, and the float nearest to
  that decimal is returned.
\<close>

definition py_round :: "real \<Rightarrow> nat \<Rightarrow> real" where
  "py_round x ndigits = binary64 (of_int (round_half_even (x * 10 ^ ndigits)) / 10 ^ ndigits)"

text \<open>
  The values that \<open>json.loads\<close> returns. A number is a real; the \<open>NaN\<close> and
  \<open>Infinity\<close> that the parser also accepts are left out.
\<close>

datatype json =
    JNull
  | JBool bool
  | JNum real
  | JStr pystr
  | JArr "json list"
  | JObj "(pystr \<times> json) list"

text \<open>Truth value of an object in a condition.\<close>

fun truthy :: "json \<Rightarrow> bool" where
  "truthy JNull = False"
| "truthy (JBool b) = b"
| "truthy (JNum x) = (x \<noteq> 0)"
| "truthy (JStr s) = (s \<noteq> [])"
| "truthy (JArr xs) = (xs \<noteq> [])"
| "truthy (JObj kvs) = (kvs \<noteq> [])"

text \<open>
  \<open>key in obj\<close> for a string \<open>key\<close>: key membership in a dict, element membership in
  a list, substring test in a string, TypeError for the objects that are not iterable.
\<close>

fun py_in :: "pystr \<Rightarrow> json \<Rightarrow> exn + bool" where
  "py_in key (JObj kvs) = Inr (key \<in> fst ` set kvs)"
| "py_in key (JArr xs) = Inr (JStr key \<in> set xs)"
| "py_in key (JStr s) = Inr (contains s key)"
| "py_in key JNull = Inl TypeError"
| "py_in key (JBool b) = Inl TypeError"
| "py_in key (JNum x) = Inl TypeError"

text \<open>
  \<open>obj[key]\<close> for a string \<open>key\<close>: lookup in a dict (KeyError when absent),
  TypeError for every other object.
\<close>

fun getitem :: "json \<Rightarrow> pystr \<Rightarrow> exn + json" where
  "getitem (JObj kvs) key = (case map_of kvs key of None \<Rightarrow> Inl KeyError | Some v \<Rightarrow> Inr v)"
| "getitem JNull key = Inl TypeError"
| "getitem (JBool b) key = Inl TypeError"
| "getitem (JNum x) key = Inl TypeError"
| "getitem (JStr s) key = Inl TypeError"
| "getitem (JArr xs) key = Inl TypeError"

section \<open>The monitor and its collaborators\<close>

text \<open>
  An alert is the string that the source formats; the model keeps the arguments of the
  format string instead of the rendered text: device, percentage and threshold for a usage
  alert, sensor group, reading and threshold for a temperature alert, drive path for a
  SMART alert. The monitor is the object state: two thresholds and the alert list, which
  the three collectors and \<open>run_full_check\<close> take and return. The remaining method,
  \<open>send_email_alert\<close>, only reads the list and is not modelled.
\<close>

datatype alert =
    UsageAlert pystr real real
  | TemperatureAlert pystr real real
  | SmartAlert pystr

record monitor =
  temp_threshold :: real
  usage_threshold :: real
  alerts :: "alert list"

text \<open>The tuples of \<open>psutil\<close> and the result of \<open>subprocess.run\<close>.\<close>

record sdiskpart =
  device :: pystr
  mountpoint :: pystr

record sdiskusage =
  total :: nat
  used :: nat
  free :: nat

record shwtemp =
  label :: pystr
  current :: real

record completed_process =
  returncode :: int
  stdout :: pystr

text \<open>
  What the monitor calls outside itself during one run: the partition table, the usage
  of a mount point, the thermal sensors (a dict of sensor lists in iteration order),
  the command run as a subprocess, the JSON parser and the clock.
\<close>

record env =
  psutil_disk_partitions :: "sdiskpart list"
  psutil_disk_usage :: "pystr \<Rightarrow> exn + sdiskusage"
  psutil_sensors_temperatures :: "exn + (pystr \<times> shwtemp list) list"
  subprocess_run :: "pystr list \<Rightarrow> exn + completed_process"
  json_loads :: "pystr \<Rightarrow> exn + json"
  datetime_now :: pystr

subsection \<open>Construction\<close>

text \<open>
  \<open>__init__\<close> stores the two thresholds and a new empty alert list. It has no
  \<open>raise\<close>; the result is a sum only so that a failing construction can be spoken of.
\<close>

definition SSDHealthMonitor_init :: "real \<Rightarrow> real \<Rightarrow> exn + monitor" where
  "SSDHealthMonitor_init temp_thr usage_thr =
     Inr \<lparr>temp_threshold = temp_thr, usage_threshold = usage_thr, alerts = []\<rparr>"

text \<open>The defaults of the two keyword arguments.\<close>

definition default_temp_threshold :: real where
  "default_temp_threshold = 70"

definition default_usage_threshold :: real where
  "default_usage_threshold = 90"

subsection \<open>Disk usage\<close>

text \<open>One entry of the dict that \<open>get_disk_usage\<close> returns.\<close>

record volume =
  volume_mountpoint :: pystr
  total_gb :: real
  used_gb :: real
  free_gb :: real
  percent_used :: real

definition gib :: nat where
  "gib = 1024 ^ 3"

text \<open>\<open>a / b\<close> on two integers: true division, ZeroDivisionError when \<open>b\<close> is zero.\<close>

definition py_truediv :: "nat \<Rightarrow> nat \<Rightarrow> exn + real" where
  "py_truediv a b = (if b = 0 then Inl ZeroDivisionError else Inr (true_quotient a b))"

text \<open>
  The body of the loop over the partitions. Only PermissionError is caught (the
  partition is skipped); any other exception of \<open>psutil.disk_usage\<close> and the
  ZeroDivisionError of \<open>usage.used / usage.total\<close> leave the method.
\<close>

definition usage_step ::
  "env \<Rightarrow> sdiskpart \<Rightarrow> (pystr \<times> volume) list \<Rightarrow> monitor
     \<Rightarrow> (exn + (pystr \<times> volume) list) \<times> monitor" where
  "usage_step e part usage_map m =
     (case psutil_disk_usage e (mountpoint part) of
        Inl err \<Rightarrow> if err = PermissionError then (Inr usage_map, m) else (Inl err, m)
      | Inr usage \<Rightarrow>
          (case py_truediv (used usage) (total usage) of
             Inl err \<Rightarrow> (Inl err, m)
           | Inr ratio \<Rightarrow>
               let pct = float_mul ratio 100;
                   usage_map' = AList.update (device part)
                     \<lparr>volume_mountpoint = mountpoint part,
                      total_gb = py_round (true_quotient (total usage) gib) 2,
                      used_gb = py_round (true_quotient (used usage) gib) 2,
                      free_gb = py_round (true_quotient (free usage) gib) 2,
                      percent_used = py_round pct 1\<rparr> usage_map
               in if usage_threshold m < pct
                  then (Inr usage_map',
                        m\<lparr>alerts := alerts m @
                           [UsageAlert (device part) pct (usage_threshold m)]\<rparr>)
                  else (Inr usage_map', m)))"

fun usage_loop ::
  "env \<Rightarrow> sdiskpart list \<Rightarrow> (pystr \<times> volume) list \<Rightarrow> monitor
     \<Rightarrow> (exn + (pystr \<times> volume) list) \<times> monitor" where
  "usage_loop e [] usage_map m = (Inr usage_map, m)"
| "usage_loop e (part # rest) usage_map m =
     (case usage_step e part usage_map m of
        (Inl err, m') \<Rightarrow> (Inl err, m')
      | (Inr usage_map', m') \<Rightarrow> usage_loop e rest usage_map' m')"

definition get_disk_usage ::
  "env \<Rightarrow> monitor \<Rightarrow> (exn + (pystr \<times> volume) list) \<times> monitor" where
  "get_disk_usage e m = usage_loop e (psutil_disk_partitions e) [] m"

subsection \<open>Temperatures\<close>

definition storage_keywords :: "pystr list" where
  "storage_keywords = [str ''nvme'', str ''ssd'', str ''sata'', str ''drive'']"

definition storage_sensor :: "pystr \<Rightarrow> bool" where
  "storage_sensor sensor_name =
     list_ex (\<lambda>keyword. contains (lower sensor_name) keyword) storage_keywords"

definition sensor_step ::
  "pystr \<Rightarrow> shwtemp \<Rightarrow> (pystr \<times> real) list \<Rightarrow> monitor
     \<Rightarrow> (pystr \<times> real) list \<times> monitor" where
  "sensor_step sensor_name sensor temperatures m =
     (let temp = current sensor;
          temperatures' = AList.update (sensor_name @ str ''_'' @ label sensor) temp temperatures
      in if temp_threshold m < temp
         then (temperatures',
               m\<lparr>alerts := alerts m @ [TemperatureAlert sensor_name temp (temp_threshold m)]\<rparr>)
         else (temperatures', m))"

fun sensor_loop ::
  "pystr \<Rightarrow> shwtemp list \<Rightarrow> (pystr \<times> real) list \<Rightarrow> monitor
     \<Rightarrow> (pystr \<times> real) list \<times> monitor" where
  "sensor_loop sensor_name [] temperatures m = (temperatures, m)"
| "sensor_loop sensor_name (sensor # rest) temperatures m =
     (case sensor_step sensor_name sensor temperatures m of
        (temperatures', m') \<Rightarrow> sensor_loop sensor_name rest temperatures' m')"

fun sensors_loop ::
  "(pystr \<times> shwtemp list) list \<Rightarrow> (pystr \<times> real) list \<Rightarrow> monitor
     \<Rightarrow> (pystr \<times> real) list \<times> monitor" where
  "sensors_loop [] temperatures m = (temperatures, m)"
| "sensors_loop ((sensor_name, sensor_list) # rest) temperatures m =
     (if storage_sensor sensor_name
      then (case sensor_loop sensor_name sensor_list temperatures m of
              (temperatures', m') \<Rightarrow> sensors_loop rest temperatures' m')
      else sensors_loop rest temperatures m)"

text \<open>
  The whole body is inside \<open>try ... except Exception\<close>, so the method always returns
  the dict built so far; in the model only the call of \<open>psutil\<close> can raise.
\<close>

definition get_drive_temperatures :: "env \<Rightarrow> monitor \<Rightarrow> (pystr \<times> real) list \<times> monitor" where
  "get_drive_temperatures e m =
     (case psutil_sensors_temperatures e of
        Inl err \<Rightarrow> ([], m)
      | Inr sensors \<Rightarrow>
          if sensors = [] then ([], m)
          else sensors_loop sensors [] m)"

subsection \<open>SMART data\<close>

definition smartctl_argv :: "pystr \<Rightarrow> pystr list" where
  "smartctl_argv drive_path = [str ''smartctl'', str ''-a'', str ''-j'', drive_path]"

text \<open>
  Every exception of the \<open>try\<close> block (the four named handlers and the final
  \<open>except Exception\<close>) ends in \<open>return {}\<close>, as does a non-zero return code.
\<close>

definition check_smart_data :: "env \<Rightarrow> monitor \<Rightarrow> pystr \<Rightarrow> json \<times> monitor" where
  "check_smart_data e m drive_path =
     (case subprocess_run e (smartctl_argv drive_path) of
        Inl err \<Rightarrow> (JObj [], m)
      | Inr result \<Rightarrow>
          if returncode result = 0 then
            (case json_loads e (stdout result) of
               Inl err \<Rightarrow> (JObj [], m)
             | Inr smart_data \<Rightarrow>
                 (case py_in (str ''smart_status'') smart_data of
                    Inl err \<Rightarrow> (JObj [], m)
                  | Inr False \<Rightarrow> (smart_data, m)
                  | Inr True \<Rightarrow>
                      (case getitem smart_data (str ''smart_status'') of
                         Inl err \<Rightarrow> (JObj [], m)
                       | Inr smart_status \<Rightarrow>
                           (case getitem smart_status (str ''passed'') of
                              Inl err \<Rightarrow> (JObj [], m)
                            | Inr health_status \<Rightarrow>
                                if truthy health_status then (smart_data, m)
                                else (smart_data,
                                      m\<lparr>alerts := alerts m @ [SmartAlert drive_path]\<rparr>)))))
          else (JObj [], m))"

subsection \<open>The full check\<close>

text \<open>
  The drive path of a device key:
  \<open>f"/dev/sd{chr(ord('a') + ord(device[0]) - ord('A'))}"\<close> when the key ends with a
  colon, the key itself otherwise.
\<close>

definition device_path_of :: "pystr \<Rightarrow> exn + pystr" where
  "device_path_of dev =
     (if endswith dev (str '':'') then
        (case dev of
           [] \<Rightarrow> Inl IndexError
         | c # _ \<Rightarrow>
             (case py_chr (97 + int c - 65) of
                Inl err \<Rightarrow> Inl err
              | Inr ch \<Rightarrow> Inr (str ''/dev/sd'' @ [ch])))
      else Inr dev)"

fun smart_loop ::
  "env \<Rightarrow> pystr list \<Rightarrow> (pystr \<times> json) list \<Rightarrow> monitor
     \<Rightarrow> (exn + (pystr \<times> json) list) \<times> monitor" where
  "smart_loop e [] smart_data m = (Inr smart_data, m)"
| "smart_loop e (dev # rest) smart_data m =
     (case device_path_of dev of
        Inl err \<Rightarrow> (Inl err, m)
      | Inr device_path \<Rightarrow>
          (case check_smart_data e m device_path of
             (verdict, m') \<Rightarrow> smart_loop e rest (AList.update dev verdict smart_data) m'))"

text \<open>The dict that \<open>run_full_check\<close> returns; \<open>report_alerts\<close> is its key \<open>alerts\<close>.\<close>

record report =
  timestamp :: pystr
  disk_usage :: "(pystr \<times> volume) list"
  temperatures :: "(pystr \<times> real) list"
  smart_data :: "(pystr \<times> json) list"
  report_alerts :: "alert list"
  healthy :: bool

definition run_full_check :: "env \<Rightarrow> monitor \<Rightarrow> (exn + report) \<times> monitor" where
  "run_full_check e m =
     (case get_disk_usage e m of
        (Inl err, m1) \<Rightarrow> (Inl err, m1)
      | (Inr usage, m1) \<Rightarrow>
          (case get_drive_temperatures e m1 of
             (temps, m2) \<Rightarrow>
               (case smart_loop e (map fst usage) [] m2 of
                  (Inl err, m3) \<Rightarrow> (Inl err, m3)
                | (Inr smart, m3) \<Rightarrow>
                    (Inr \<lparr>timestamp = datetime_now e,
                          disk_usage = usage,
                          temperatures = temps,
                          smart_data = smart,
                          report_alerts = alerts m3,
                          healthy = (length (alerts m3) = 0)\<rparr>, m3))))"

section \<open>The conditions that a run raises\<close>

text \<open>
  The theorems below compare the alert list of the monitor with the conditions that the
  collaborators present, listed in the order in which the collectors visit them: the
  partitions, then the sensors of the storage groups, then the devices of the usage dict.
\<close>

text \<open>
  The percentage that the source computes for a volume with a non-zero total, the float
  \<open>(usage.used / usage.total) * 100\<close>; with a total of zero the run does not return
  and the conditions are not used.
\<close>

definition usage_percent :: "sdiskusage \<Rightarrow> real" where
  "usage_percent usage = float_mul (true_quotient (used usage) (total usage)) 100"

definition usage_condition :: "env \<Rightarrow> real \<Rightarrow> sdiskpart \<Rightarrow> alert list" where
  "usage_condition e thr part =
     (case psutil_disk_usage e (mountpoint part) of
        Inl err \<Rightarrow> []
      | Inr usage \<Rightarrow>
          if thr < usage_percent usage
          then [UsageAlert (device part) (usage_percent usage) thr] else [])"

definition raised_usage :: "env \<Rightarrow> real \<Rightarrow> alert list" where
  "raised_usage e thr = concat (map (usage_condition e thr) (psutil_disk_partitions e))"

definition sensor_condition :: "real \<Rightarrow> pystr \<Rightarrow> shwtemp \<Rightarrow> alert list" where
  "sensor_condition thr sensor_name sensor =
     (if thr < current sensor then [TemperatureAlert sensor_name (current sensor) thr] else [])"

definition group_conditions :: "real \<Rightarrow> pystr \<times> shwtemp list \<Rightarrow> alert list" where
  "group_conditions thr g =
     (if storage_sensor (fst g)
      then concat (map (sensor_condition thr (fst g)) (snd g)) else [])"

definition raised_temperature :: "env \<Rightarrow> real \<Rightarrow> alert list" where
  "raised_temperature e thr =
     (case psutil_sensors_temperatures e of
        Inl err \<Rightarrow> []
      | Inr sensors \<Rightarrow> concat (map (group_conditions thr) sensors))"

text \<open>The utility ran, its output parsed, and the payload carries a false \<open>passed\<close>.\<close>

definition smart_status_failed :: "env \<Rightarrow> pystr \<Rightarrow> bool" where
  "smart_status_failed e drive_path =
     (case subprocess_run e (smartctl_argv drive_path) of
        Inl err \<Rightarrow> False
      | Inr result \<Rightarrow>
          returncode result = 0 \<and>
          (case json_loads e (stdout result) of
             Inl err \<Rightarrow> False
           | Inr payload \<Rightarrow>
               (case getitem payload (str ''smart_status'') of
                  Inl err \<Rightarrow> False
                | Inr smart_status \<Rightarrow>
                    (case getitem smart_status (str ''passed'') of
                       Inl err \<Rightarrow> False
                     | Inr health_status \<Rightarrow> \<not> truthy health_status))))"

definition smart_condition :: "env \<Rightarrow> pystr \<Rightarrow> alert list" where
  "smart_condition e dev =
     (case device_path_of dev of
        Inl err \<Rightarrow> []
      | Inr device_path \<Rightarrow>
          if smart_status_failed e device_path then [SmartAlert device_path] else [])"

definition raised_smart :: "env \<Rightarrow> pystr list \<Rightarrow> alert list" where
  "raised_smart e devs = concat (map (smart_condition e) devs)"

text \<open>
  The SMART check of a drive path yields no verdict: the utility is missing, timed out
  or failed otherwise, it returned a non-zero code, or its output did not parse.
\<close>

definition smart_unavailable :: "env \<Rightarrow> pystr \<Rightarrow> bool" where
  "smart_unavailable e drive_path =
     (case subprocess_run e (smartctl_argv drive_path) of
        Inl err \<Rightarrow> True
      | Inr result \<Rightarrow>
          returncode result \<noteq> 0 \<or>
          (case json_loads e (stdout result) of Inl err \<Rightarrow> True | Inr payload \<Rightarrow> False))"

datatype category = Usage | Temperature | Smart

fun category_of :: "alert \<Rightarrow> category" where
  "category_of (UsageAlert dev pct thr) = Usage"
| "category_of (TemperatureAlert sensor_name temp thr) = Temperature"
| "category_of (SmartAlert drive_path) = Smart"

text \<open>The sensors that the temperature collector reads: those of the storage groups.\<close>

definition qualifying_sensors :: "env \<Rightarrow> shwtemp list" where
  "qualifying_sensors e =
     (case psutil_sensors_temperatures e of
        Inl err \<Rightarrow> []
      | Inr sensors \<Rightarrow>
          concat (map (\<lambda>g. if storage_sensor (fst g) then snd g else []) sensors))"

text \<open>
  Collection order of a list of alerts: no temperature or SMART alert before a usage
  alert, no SMART alert before a temperature alert.
\<close>

fun category_rank :: "category \<Rightarrow> nat" where
  "category_rank Usage = 0"
| "category_rank Temperature = 1"
| "category_rank Smart = 2"

definition in_collection_order :: "alert list \<Rightarrow> bool" where
  "in_collection_order as = sorted (map (\<lambda>a. category_rank (category_of a)) as)"

section \<open>Example runs\<close>

text \<open>
  The monitor that \<open>main\<close> builds (thresholds 75 and 85) and four environments.
  In \<open>env_alerting\<close> the device \<open>/dev/sda1\<close> is mounted twice at 90 percent, a
  storage sensor reads 80 degrees, the utility exits with code 2 for the first device
  and reports a failed status for the second. In \<open>env_quiet\<close> every reading sits
  exactly on its threshold and the utility is not installed.
\<close>

definition monitor0 :: monitor where
  "monitor0 = \<lparr>temp_threshold = 75, usage_threshold = 85, alerts = []\<rparr>"

definition smart_failing :: json where
  "smart_failing = JObj [(str ''smart_status'', JObj [(str ''passed'', JBool False)])]"

definition env_alerting :: env where
  "env_alerting =
     \<lparr>psutil_disk_partitions =
        [\<lparr>device = str ''C:'', mountpoint = str ''/c''\<rparr>,
         \<lparr>device = str ''/dev/sda1'', mountpoint = str ''/''\<rparr>,
         \<lparr>device = str ''/dev/sda1'', mountpoint = str ''/h''\<rparr>],
      psutil_disk_usage =
        (\<lambda>mp. if mp = str ''/c''
              then Inr \<lparr>total = 2 * 1024 ^ 3, used = 1024 ^ 3, free = 1024 ^ 3\<rparr>
              else if mp = str ''/'' \<or> mp = str ''/h''
              then Inr \<lparr>total = 100 * 1024 ^ 3, used = 90 * 1024 ^ 3, free = 10 * 1024 ^ 3\<rparr>
              else Inl PermissionError),
      psutil_sensors_temperatures =
        Inr [(str ''nvme'', [\<lparr>label = str ''a'', current = 80\<rparr>]),
             (str ''core'', [\<lparr>label = str ''b'', current = 95\<rparr>])],
      subprocess_run =
        (\<lambda>argv. if argv = smartctl_argv (str ''/dev/sda1'')
                then Inr \<lparr>returncode = 0, stdout = str ''F''\<rparr>
                else Inr \<lparr>returncode = 2, stdout = []\<rparr>),
      json_loads = (\<lambda>s. if s = str ''F'' then Inr smart_failing else Inl JSONDecodeError),
      datetime_now = str ''t1''\<rparr>"

definition alerts_alerting :: "alert list" where
  "alerts_alerting =
     [UsageAlert (str ''/dev/sda1'') 90 85,
      UsageAlert (str ''/dev/sda1'') 90 85,
      TemperatureAlert (str ''nvme'') 80 75,
      SmartAlert (str ''/dev/sda1'')]"

definition report_alerting :: "alert list \<Rightarrow> report" where
  "report_alerting before =
     \<lparr>timestamp = str ''t1'',
      disk_usage =
        [(str ''C:'', \<lparr>volume_mountpoint = str ''/c'', total_gb = 2, used_gb = 1,
                       free_gb = 1, percent_used = 50\<rparr>),
         (str ''/dev/sda1'', \<lparr>volume_mountpoint = str ''/h'', total_gb = 100,
                       used_gb = 90, free_gb = 10, percent_used = 90\<rparr>)],
      temperatures = [(str ''nvme_a'', 80)],
      smart_data = [(str ''C:'', JObj []), (str ''/dev/sda1'', smart_failing)],
      report_alerts = before @ alerts_alerting,
      healthy = False\<rparr>"

definition env_quiet :: env where
  "env_quiet =
     \<lparr>psutil_disk_partitions = [\<lparr>device = str ''/dev/sdb1'', mountpoint = str ''/''\<rparr>],
      psutil_disk_usage =
        (\<lambda>mp. if mp = str ''/''
              then Inr \<lparr>total = 100 * 1024 ^ 3, used = 85 * 1024 ^ 3, free = 15 * 1024 ^ 3\<rparr>
              else Inl PermissionError),
      psutil_sensors_temperatures =
        Inr [(str ''SATA'', [\<lparr>label = str ''x'', current = 75\<rparr>])],
      subprocess_run = (\<lambda>argv. Inl FileNotFoundError),
      json_loads = (\<lambda>s. Inl JSONDecodeError),
      datetime_now = str ''t2''\<rparr>"

definition report_quiet :: "alert list \<Rightarrow> report" where
  "report_quiet before =
     \<lparr>timestamp = str ''t2'',
      disk_usage =
        [(str ''/dev/sdb1'', \<lparr>volume_mountpoint = str ''/'', total_gb = 100,
                       used_gb = 85, free_gb = 15, percent_used = 85\<rparr>)],
      temperatures = [(str ''SATA_x'', 75)],
      smart_data = [(str ''/dev/sdb1'', JObj [])],
      report_alerts = before,
      healthy = (before = [])\<rparr>"

text \<open>
  In \<open>env_rounding\<close> no sensor group is storage related. In \<open>env_zero\<close> the first
  volume has a total of zero bytes and the sensor call raises. In \<open>env_float\<close> the
  byte counts of the volume satisfy \<open>used + free = total\<close> and round to 163.61,
  256.18 and 419.78. In \<open>env_edge\<close> 55 of 100 GiB are used, which the float
  arithmetic of the source turns into a percentage just above 55, the usage threshold of
  \<open>monitor55\<close>.
\<close>

definition env_rounding :: env where
  "env_rounding =
     \<lparr>psutil_disk_partitions = [\<lparr>device = str ''/dev/sdc1'', mountpoint = str ''/''\<rparr>],
      psutil_disk_usage =
        (\<lambda>mp. Inr \<lparr>total = 10737420, used = 5368710, free = 5368710\<rparr>),
      psutil_sensors_temperatures =
        Inr [(str ''core'', [\<lparr>label = str ''b'', current = 95\<rparr>])],
      subprocess_run = (\<lambda>argv. Inl FileNotFoundError),
      json_loads = (\<lambda>s. Inl JSONDecodeError),
      datetime_now = str ''t3''\<rparr>"

definition env_zero :: env where
  "env_zero =
     \<lparr>psutil_disk_partitions =
        [\<lparr>device = str ''/dev/sr0'', mountpoint = str ''/m''\<rparr>,
         \<lparr>device = str ''/dev/sda1'', mountpoint = str ''/''\<rparr>],
      psutil_disk_usage =
        (\<lambda>mp. if mp = str ''/m''
              then Inr \<lparr>total = 0, used = 0, free = 0\<rparr>
              else Inr \<lparr>total = 100 * 1024 ^ 3, used = 90 * 1024 ^ 3, free = 10 * 1024 ^ 3\<rparr>),
      psutil_sensors_temperatures = Inl OtherException,
      subprocess_run = (\<lambda>argv. Inl FileNotFoundError),
      json_loads = (\<lambda>s. Inl JSONDecodeError),
      datetime_now = str ''t4''\<rparr>"

definition env_float :: env where
  "env_float =
     \<lparr>psutil_disk_partitions = [\<lparr>device = str ''/dev/sdd1'', mountpoint = str ''/''\<rparr>],
      psutil_disk_usage =
        (\<lambda>mp. Inr \<lparr>total = 450736508928, used = 175670292480, free = 275066216448\<rparr>),
      psutil_sensors_temperatures = Inl OtherException,
      subprocess_run = (\<lambda>argv. Inl FileNotFoundError),
      json_loads = (\<lambda>s. Inl JSONDecodeError),
      datetime_now = str ''t5''\<rparr>"



section \<open>What each collector appends\<close>

lemma usage_step_alerts:
  "usage_step e part um m = (Inr um', m') \<Longrightarrow>
     m' = m\<lparr>alerts := alerts m @ usage_condition e (usage_threshold m) part\<rparr>"
  by (auto simp: usage_step_def usage_condition_def usage_percent_def py_truediv_def Let_def
      split: sum.splits if_splits)

lemma usage_loop_alerts:
  "usage_loop e ps um m = (Inr um', m') \<Longrightarrow>
     m' = m\<lparr>alerts := alerts m @ concat (map (usage_condition e (usage_threshold m)) ps)\<rparr>"
proof (induction ps arbitrary: um m)
  case Nil
  then show ?case by simp
next
  case (Cons p ps)
  from Cons.prems obtain um1 m1 where
    step: "usage_step e p um m = (Inr um1, m1)" and
    rest: "usage_loop e ps um1 m1 = (Inr um', m')"
    by (auto split: prod.splits sum.splits)
  from usage_step_alerts [OF step] Cons.IH [OF rest] show ?case by simp
qed

lemma get_disk_usage_alerts:
  "get_disk_usage e m = (Inr um, m') \<Longrightarrow>
     m' = m\<lparr>alerts := alerts m @ raised_usage e (usage_threshold m)\<rparr>"
  unfolding get_disk_usage_def raised_usage_def by (rule usage_loop_alerts)

lemma sensor_step_alerts:
  "sensor_step name s ts m = (ts', m') \<Longrightarrow>
     m' = m\<lparr>alerts := alerts m @ sensor_condition (temp_threshold m) name s\<rparr>"
  by (auto simp: sensor_step_def sensor_condition_def Let_def split: if_splits)

lemma sensor_loop_alerts:
  "sensor_loop name sl ts m = (ts', m') \<Longrightarrow>
     m' = m\<lparr>alerts := alerts m @ concat (map (sensor_condition (temp_threshold m) name) sl)\<rparr>"
proof (induction sl arbitrary: ts m)
  case Nil
  then show ?case by simp
next
  case (Cons s sl)
  from Cons.prems obtain ts1 m1 where
    step: "sensor_step name s ts m = (ts1, m1)" and
    rest: "sensor_loop name sl ts1 m1 = (ts', m')"
    by (auto split: prod.splits)
  from sensor_step_alerts [OF step] Cons.IH [OF rest] show ?case by simp
qed

lemma sensors_loop_alerts:
  "sensors_loop gs ts m = (ts', m') \<Longrightarrow>
     m' = m\<lparr>alerts := alerts m @ concat (map (group_conditions (temp_threshold m)) gs)\<rparr>"
proof (induction gs arbitrary: ts m)
  case Nil
  then show ?case by simp
next
  case (Cons g gs)
  obtain name sl where g: "g = (name, sl)" by (cases g)
  show ?case
  proof (cases "storage_sensor name")
    case True
    with Cons.prems g obtain ts1 m1 where
      inner: "sensor_loop name sl ts m = (ts1, m1)" and
      rest: "sensors_loop gs ts1 m1 = (ts', m')"
      by (auto split: prod.splits)
    from sensor_loop_alerts [OF inner] Cons.IH [OF rest] True g show ?thesis
      by (simp add: group_conditions_def)
  next
    case False
    with Cons.prems g have "sensors_loop gs ts m = (ts', m')" by simp
    from Cons.IH [OF this] False g show ?thesis by (simp add: group_conditions_def)
  qed
qed

lemma get_drive_temperatures_alerts:
  "get_drive_temperatures e m = (ts, m') \<Longrightarrow>
     m' = m\<lparr>alerts := alerts m @ raised_temperature e (temp_threshold m)\<rparr>"
  by (auto simp: get_drive_temperatures_def raised_temperature_def
      split: sum.splits if_splits dest: sensors_loop_alerts)

lemma getitem_py_in: "getitem payload key = Inr v \<Longrightarrow> py_in key payload = Inr True"
  by (cases payload) (auto split: option.splits dest: map_of_SomeD intro: rev_image_eqI)

lemma check_smart_data_alerts:
  "snd (check_smart_data e m p) =
     (if smart_status_failed e p then m\<lparr>alerts := alerts m @ [SmartAlert p]\<rparr> else m)"
  by (auto simp: check_smart_data_def smart_status_failed_def
      split: sum.splits bool.splits dest: getitem_py_in)

lemma check_smart_data_unavailable:
  "smart_unavailable e p \<Longrightarrow> check_smart_data e m p = (JObj [], m)"
  by (auto simp: check_smart_data_def smart_unavailable_def split: sum.splits)

lemma check_smart_data_failed:
  "smart_status_failed e p \<Longrightarrow>
     py_in (str ''smart_status'') (fst (check_smart_data e m p)) = Inr True"
  by (auto simp: check_smart_data_def smart_status_failed_def
      split: sum.splits bool.splits dest: getitem_py_in)

lemma smart_loop_alerts:
  "smart_loop e devs sd m = (Inr sd', m') \<Longrightarrow>
     m' = m\<lparr>alerts := alerts m @ raised_smart e devs\<rparr>"
proof (induction devs arbitrary: sd m)
  case Nil
  then show ?case by (simp add: raised_smart_def)
next
  case (Cons d ds)
  from Cons.prems obtain p where p: "device_path_of d = Inr p"
    by (auto split: sum.splits)
  obtain v m1 where chk: "check_smart_data e m p = (v, m1)" by (cases "check_smart_data e m p")
  with Cons.prems p have rest: "smart_loop e ds (AList.update d v sd) m1 = (Inr sd', m')"
    by simp
  from chk have "m1 = snd (check_smart_data e m p)" by simp
  then have m1: "m1 = m\<lparr>alerts := alerts m @ smart_condition e d\<rparr>"
    by (simp add: check_smart_data_alerts smart_condition_def p)
  from Cons.IH [OF rest] m1 show ?case by (simp add: raised_smart_def)
qed

lemma smart_loop_keys:
  "smart_loop e devs sd m = (Inr sd', m') \<Longrightarrow> fst ` set sd' = fst ` set sd \<union> set devs"
proof (induction devs arbitrary: sd m)
  case Nil
  then show ?case by simp
next
  case (Cons d ds)
  from Cons.prems obtain p where p: "device_path_of d = Inr p"
    by (auto split: sum.splits)
  obtain v m1 where chk: "check_smart_data e m p = (v, m1)" by (cases "check_smart_data e m p")
  with Cons.prems p have rest: "smart_loop e ds (AList.update d v sd) m1 = (Inr sd', m')"
    by simp
  from Cons.IH [OF rest] show ?case by (auto simp: dom_update)
qed

lemma smart_loop_other:
  "smart_loop e devs sd m = (Inr sd', m') \<Longrightarrow> dev \<notin> set devs \<Longrightarrow>
     map_of sd' dev = map_of sd dev"
proof (induction devs arbitrary: sd m)
  case Nil
  then show ?case by simp
next
  case (Cons d ds)
  from Cons.prems obtain p where p: "device_path_of d = Inr p"
    by (auto split: sum.splits)
  obtain v m1 where chk: "check_smart_data e m p = (v, m1)" by (cases "check_smart_data e m p")
  with Cons.prems p have rest: "smart_loop e ds (AList.update d v sd) m1 = (Inr sd', m')"
    by simp
  from Cons.prems have "dev \<notin> set ds" "dev \<noteq> d" by auto
  with Cons.IH [OF rest] show ?case by (simp add: update_conv')
qed

lemma smart_loop_unavailable:
  "smart_loop e devs sd m = (Inr sd', m') \<Longrightarrow> dev \<in> set devs \<Longrightarrow>
     device_path_of dev = Inr p \<Longrightarrow> smart_unavailable e p \<Longrightarrow>
     map_of sd' dev = Some (JObj [])"
proof (induction devs arbitrary: sd m)
  case Nil
  then show ?case by simp
next
  case (Cons d ds)
  from Cons.prems obtain q where q: "device_path_of d = Inr q"
    by (auto split: sum.splits)
  obtain v m1 where chk: "check_smart_data e m q = (v, m1)" by (cases "check_smart_data e m q")
  with Cons.prems q have rest: "smart_loop e ds (AList.update d v sd) m1 = (Inr sd', m')"
    by simp
  show ?case
  proof (cases "dev \<in> set ds")
    case True
    from Cons.IH [OF rest True Cons.prems(3,4)] show ?thesis .
  next
    case False
    with Cons.prems(2) have d: "d = dev" by simp
    with q Cons.prems(3) have "q = p" by simp
    with chk check_smart_data_unavailable [OF Cons.prems(4), of m] have "v = JObj []" by simp
    with smart_loop_other [OF rest False] d show ?thesis by (simp add: update_conv')
  qed
qed

lemma smart_loop_completes:
  "\<forall>dev\<in>set devs. \<not> isl (device_path_of dev) \<Longrightarrow> \<not> isl (fst (smart_loop e devs sd m))"
proof (induction devs arbitrary: sd m)
  case Nil
  then show ?case by simp
next
  case (Cons d ds)
  then obtain p where p: "device_path_of d = Inr p" by (cases "device_path_of d") auto
  obtain v m1 where chk: "check_smart_data e m p = (v, m1)" by (cases "check_smart_data e m p")
  from Cons.prems have "\<forall>dev\<in>set ds. \<not> isl (device_path_of dev)" by simp
  from Cons.IH [OF this] p chk show ?case by simp
qed

lemma run_full_check_alerts:
  assumes "run_full_check e m = (Inr r, m')"
  shows "report_alerts r = alerts m @ raised_usage e (usage_threshold m)
           @ raised_temperature e (temp_threshold m) @ raised_smart e (map fst (disk_usage r))"
    and "m' = m\<lparr>alerts := report_alerts r\<rparr>"
    and "healthy r = (report_alerts r = [])"
proof -
  from assms obtain um m1 where
    u: "get_disk_usage e m = (Inr um, m1)"
    by (auto simp: run_full_check_def split: prod.splits sum.splits)
  obtain ts m2 where t: "get_drive_temperatures e m1 = (ts, m2)"
    by (cases "get_drive_temperatures e m1")
  from assms u t obtain sd m3 where
    s: "smart_loop e (map fst um) [] m2 = (Inr sd, m3)"
    by (auto simp: run_full_check_def split: prod.splits sum.splits)
  from assms u t s have r: "r = \<lparr>timestamp = datetime_now e, disk_usage = um, temperatures = ts,
      smart_data = sd, report_alerts = alerts m3, healthy = (length (alerts m3) = 0)\<rparr>"
    and m': "m' = m3"
    by (auto simp: run_full_check_def)
  note a1 = get_disk_usage_alerts [OF u]
  note a2 = get_drive_temperatures_alerts [OF t]
  note a3 = smart_loop_alerts [OF s]
  from a1 a2 a3 r show "report_alerts r = alerts m @ raised_usage e (usage_threshold m)
           @ raised_temperature e (temp_threshold m) @ raised_smart e (map fst (disk_usage r))"
    by simp
  from a1 a2 a3 r m' show "m' = m\<lparr>alerts := report_alerts r\<rparr>" by simp
  from r show "healthy r = (report_alerts r = [])" by simp
qed

section \<open>Evaluation of the example runs\<close>

lemmas float_simps = true_quotient_def float_mul_def py_round_def binary64_def exponent_def
  compute_bitlen round_half_even_def power_int_minus gib_def

lemmas eval_simps = run_full_check_def get_disk_usage_def usage_step_def py_truediv_def
  get_drive_temperatures_def sensor_step_def storage_sensor_def storage_keywords_def
  lower_def lower_char_def check_smart_data_def smartctl_argv_def device_path_of_def
  endswith_def suffix_to_prefix py_chr_def str_def float_simps

lemma run_alerting:
  "run_full_check env_alerting \<lparr>temp_threshold = 75, usage_threshold = 85, alerts = before\<rparr>
     = (Inr (report_alerting before),
        \<lparr>temp_threshold = 75, usage_threshold = 85, alerts = before @ alerts_alerting\<rparr>)"
  by (simp add: eval_simps env_alerting_def report_alerting_def alerts_alerting_def
      smart_failing_def)

lemma run_quiet:
  "run_full_check env_quiet \<lparr>temp_threshold = 75, usage_threshold = 85, alerts = before\<rparr>
     = (Inr (report_quiet before),
        \<lparr>temp_threshold = 75, usage_threshold = 85, alerts = before\<rparr>)"
  by (simp add: eval_simps env_quiet_def report_quiet_def)

section \<open>Float rounding\<close>

lemma round_half_even_error: "\<bar>of_int (round_half_even x) - x\<bar> \<le> 1 / 2"
proof -
  have "of_int \<lfloor>x\<rfloor> \<le> x" "x < of_int \<lfloor>x\<rfloor> + 1" by linarith+
  then show ?thesis by (auto simp: round_half_even_def Let_def)
qed

lemma round_half_even_mono_int: "of_int k \<le> x \<Longrightarrow> k \<le> round_half_even x"
proof -
  assume "of_int k \<le> x"
  then have "k \<le> \<lfloor>x\<rfloor>" by (simp add: le_floor_iff)
  then show ?thesis by (auto simp: round_half_even_def Let_def)
qed

lemma exponent_bounds:
  assumes "0 < x"
  shows "2 powi (exponent x) \<le> x \<and> x < 2 powi (exponent x + 1)"
proof (cases "1 \<le> x")
  case True
  define n where "n = \<lfloor>x\<rfloor>"
  from True have n: "0 < n" by (simp add: n_def)
  from True have e: "exponent x = bitlen n - 1" by (simp add: exponent_def n_def)
  from n have b1: "1 \<le> bitlen n" by (simp add: bitlen_alt_def)
  from bitlen_bounds [OF n] have lo: "2 ^ nat (bitlen n - 1) \<le> n" and hi: "n < 2 ^ nat (bitlen n)"
    by simp_all
  have "of_int n \<le> x" by (simp add: n_def)
  with lo have "(2::real) ^ nat (bitlen n - 1) \<le> x"
    by (metis (no_types, opaque_lifting) of_int_le_iff of_int_numeral of_int_power order_trans)
  from hi have "n + 1 \<le> 2 ^ nat (bitlen n)" by simp
  then have "of_int (n + 1) \<le> (2::real) ^ nat (bitlen n)"
    by (metis of_int_le_iff of_int_numeral of_int_power)
  moreover have "x < of_int (n + 1)" unfolding n_def by linarith
  ultimately have "x < (2::real) ^ nat (bitlen n)" by linarith
  with \<open>(2::real) ^ nat (bitlen n - 1) \<le> x\<close> show ?thesis
    using b1 by (simp add: e power_int_def)
next
  case False
  with assms have x1: "x < 1" by simp
  define k where "k = \<lceil>1 / x\<rceil> - 1"
  from assms x1 have y: "1 < 1 / x" by simp
  then have k: "0 < k" by (simp add: k_def less_ceiling_iff)
  from False have e: "exponent x = - bitlen k" by (simp add: exponent_def k_def)
  from k have b1: "1 \<le> bitlen k" by (simp add: bitlen_alt_def)
  from bitlen_bounds [OF k] have lo: "2 ^ nat (bitlen k - 1) \<le> k" and hi: "k < 2 ^ nat (bitlen k)"
    by simp_all
  have "1 / x \<le> of_int (k + 1)" by (simp add: k_def)
  moreover from hi have "k + 1 \<le> 2 ^ nat (bitlen k)" by simp
  then have "of_int (k + 1) \<le> (2::real) ^ nat (bitlen k)"
    by (metis of_int_le_iff of_int_numeral of_int_power)
  ultimately have "1 / x \<le> 2 ^ nat (bitlen k)" by linarith
  with assms have low: "1 / 2 ^ nat (bitlen k) \<le> x"
    by (simp add: field_simps)
  have "of_int k < 1 / x" unfolding k_def by linarith
  moreover from lo have "(2::real) ^ nat (bitlen k - 1) \<le> of_int k"
    by (metis of_int_le_iff of_int_numeral of_int_power)
  ultimately have "2 ^ nat (bitlen k - 1) < 1 / x" by linarith
  with assms have high: "x < 1 / 2 ^ nat (bitlen k - 1)"
    by (simp add: field_simps)
  have p1: "(2::real) powi (- bitlen k) = 1 / 2 ^ nat (bitlen k)"
    using b1 by (simp add: power_int_def field_simps)
  have p2: "(2::real) powi (1 - bitlen k) = 1 / 2 ^ nat (bitlen k - 1)"
  proof (cases "bitlen k = 1")
    case True
    then show ?thesis by simp
  next
    case False
    with b1 have "1 - bitlen k < 0" by simp
    then show ?thesis using b1
      by (simp add: power_int_def field_simps nat_diff_distrib)
  qed
  from low high show ?thesis by (simp add: e p1 p2)
qed

lemma binary64_bounds:
  assumes "0 < x"
  shows "x \<le> binary64 x * (1 + 1 / 2 ^ 53)" and "binary64 x * (1 - 1 / 2 ^ 53) \<le> x"
    and "0 < binary64 x"
proof -
  define e where "e = exponent x"
  define s where "s = x * 2 powi (52 - e)"
  define m where "m = round_half_even s"
  from exponent_bounds [OF assms] have lo: "2 powi e \<le> x" and hi: "x < 2 powi (e + 1)"
    by (simp_all add: e_def)
  have pos: "(0::real) < 2 powi (52 - e)" "(0::real) < 2 powi (e - 52)" by simp_all
  have inv: "(2::real) powi (52 - e) * 2 powi (e - 52) = 1"
    by (simp flip: power_int_add)
  have "2 powi e * 2 powi (52 - e) \<le> s" using lo pos by (simp add: s_def)
  then have s_lo: "2 ^ 52 \<le> s" by (simp flip: power_int_add)
  then have "of_int (2 ^ 52) \<le> s" by simp
  then have m_lo: "2 ^ 52 \<le> m" unfolding m_def by (rule round_half_even_mono_int)
  then have m_lo': "(2::real) ^ 52 \<le> of_int m"
    by (metis of_int_le_iff of_int_numeral of_int_power)
  have err: "\<bar>of_int m - s\<bar> \<le> 1 / 2" unfolding m_def by (rule round_half_even_error)
  have fl: "binary64 x = of_int m * 2 powi (e - 52)"
    using assms by (simp add: binary64_def Let_def e_def m_def s_def)
  have x: "x = s * 2 powi (e - 52)"
    using inv by (simp add: s_def mult.assoc)
  have "\<bar>binary64 x - x\<bar> = \<bar>of_int m - s\<bar> * 2 powi (e - 52)"
    unfolding fl using x pos by (simp add: abs_mult left_diff_distrib [symmetric])
  also have "\<dots> \<le> 1 / 2 * 2 powi (e - 52)"
    using err pos by (intro mult_right_mono) simp_all
  also have "\<dots> = (2 ^ 52 * 2 powi (e - 52)) / 2 ^ 53" by simp
  also have "\<dots> \<le> (of_int m * 2 powi (e - 52)) / 2 ^ 53"
    using m_lo' pos by (intro divide_right_mono mult_right_mono) simp_all
  finally have bound: "\<bar>binary64 x - x\<bar> \<le> binary64 x / 2 ^ 53" by (simp add: fl)
  from m_lo' pos show "0 < binary64 x" unfolding fl
    by (intro mult_pos_pos) (auto intro: less_le_trans [of 0 "2 ^ 52"])
  have up: "binary64 x * (1 + 1 / 2 ^ 53) = binary64 x + binary64 x / 2 ^ 53"
    and down: "binary64 x * (1 - 1 / 2 ^ 53) = binary64 x - binary64 x / 2 ^ 53"
    by (simp_all add: algebra_simps)
  from bound show "x \<le> binary64 x * (1 + 1 / 2 ^ 53)" unfolding up by linarith
  from bound show "binary64 x * (1 - 1 / 2 ^ 53) \<le> x" unfolding down by linarith
qed

lemma binary64_error:
  assumes "0 \<le> x"
  shows "0 \<le> binary64 x \<and> \<bar>binary64 x - x\<bar> \<le> binary64 x / 2 ^ 53"
proof (cases "x = 0")
  case True
  then show ?thesis by (simp add: binary64_def)
next
  case False
  with assms have "0 < x" by simp
  have up: "binary64 x * (1 + 1 / 2 ^ 53) = binary64 x + binary64 x / 2 ^ 53"
    and down: "binary64 x * (1 - 1 / 2 ^ 53) = binary64 x - binary64 x / 2 ^ 53"
    by (simp_all add: algebra_simps)
  from binary64_bounds [OF \<open>0 < x\<close>] show ?thesis unfolding up down by linarith
qed

lemma round_half_even_nonneg: "0 \<le> x \<Longrightarrow> 0 \<le> round_half_even x"
  using round_half_even_mono_int [of 0 x] by simp

lemma binary64_error_split:
  assumes "0 \<le> x"
  shows "0 \<le> binary64 x" and "9007199254740992 * (binary64 x - x) \<le> binary64 x"
    and "9007199254740992 * (x - binary64 x) \<le> binary64 x"
proof -
  from binary64_error [OF assms] have nn: "0 \<le> binary64 x"
    and e: "\<bar>binary64 x - x\<bar> \<le> binary64 x / 2 ^ 53" by simp_all
  have n: "(2::real) ^ 53 = 9007199254740992" by simp
  from e [unfolded n] show "9007199254740992 * (binary64 x - x) \<le> binary64 x"
    and "9007199254740992 * (x - binary64 x) \<le> binary64 x" by argo+
  from nn show "0 \<le> binary64 x" .
qed

lemma py_round_2_error:
  assumes "0 \<le> x"
  obtains k where "of_int k - x * 100 \<le> 1 / 2" and "x * 100 - of_int k \<le> 1 / 2"
    and "0 \<le> py_round x 2"
    and "9007199254740992 * (py_round x 2 - of_int k / 100) \<le> py_round x 2"
    and "9007199254740992 * (of_int k / 100 - py_round x 2) \<le> py_round x 2"
proof -
  define k where "k = round_half_even (x * 100)"
  from assms have k0: "0 \<le> k" unfolding k_def by (intro round_half_even_nonneg) simp
  have "\<bar>of_int k - x * 100\<bar> \<le> 1 / 2" unfolding k_def by (rule round_half_even_error)
  then have err: "of_int k - x * 100 \<le> 1 / 2" "x * 100 - of_int k \<le> 1 / 2" by linarith+
  have r: "py_round x 2 = binary64 (of_int k / 100)" by (simp add: py_round_def k_def)
  from k0 have "(0::real) \<le> of_int k / 100" by simp
  from binary64_error_split [OF this] err that show ?thesis unfolding r by blast
qed

lemma rounded_parts_add_up:
  assumes bytes: "a + b = c"
  shows "\<bar>py_round (true_quotient a gib) 2 + py_round (true_quotient b gib) 2
            - py_round (true_quotient c gib) 2\<bar>
          \<le> 1 / 100 + (1 / 100 + py_round (true_quotient a gib) 2
                + py_round (true_quotient b gib) 2 + py_round (true_quotient c gib) 2) / 2 ^ 50"
proof -
  define A B C where "A = (of_nat a :: real) / of_nat gib" and "B = (of_nat b :: real) / of_nat gib"
    and "C = (of_nat c :: real) / of_nat gib"
  define xa xb xc where "xa = true_quotient a gib" and "xb = true_quotient b gib"
    and "xc = true_quotient c gib"
  define Ua Ub Uc where "Ua = py_round xa 2" and "Ub = py_round xb 2" and "Uc = py_round xc 2"
  have nonneg: "0 \<le> A" "0 \<le> B" "0 \<le> C" by (simp_all add: A_def B_def C_def)
  from bytes have "(of_nat a :: real) + of_nat b = of_nat c" by (metis of_nat_add)
  then have sum: "A + B = C" by (simp add: A_def B_def C_def add_divide_distrib [symmetric])
  have x: "xa = binary64 A" "xb = binary64 B" "xc = binary64 C"
    by (simp_all add: xa_def xb_def xc_def true_quotient_def A_def B_def C_def)
  note ea = binary64_error_split [OF nonneg(1), folded x]
  note eb = binary64_error_split [OF nonneg(2), folded x]
  note ec = binary64_error_split [OF nonneg(3), folded x]
  obtain ka where ka: "of_int ka - xa * 100 \<le> 1 / 2" "xa * 100 - of_int ka \<le> 1 / 2" "0 \<le> Ua"
      "9007199254740992 * (Ua - of_int ka / 100) \<le> Ua"
      "9007199254740992 * (of_int ka / 100 - Ua) \<le> Ua"
    using py_round_2_error [OF ea(1)] unfolding Ua_def by metis
  obtain kb where kb: "of_int kb - xb * 100 \<le> 1 / 2" "xb * 100 - of_int kb \<le> 1 / 2" "0 \<le> Ub"
      "9007199254740992 * (Ub - of_int kb / 100) \<le> Ub"
      "9007199254740992 * (of_int kb / 100 - Ub) \<le> Ub"
    using py_round_2_error [OF eb(1)] unfolding Ub_def by metis
  obtain kc where kc: "of_int kc - xc * 100 \<le> 1 / 2" "xc * 100 - of_int kc \<le> 1 / 2" "0 \<le> Uc"
      "9007199254740992 * (Uc - of_int kc / 100) \<le> Uc"
      "9007199254740992 * (of_int kc / 100 - Uc) \<le> Uc"
    using py_round_2_error [OF ec(1)] unfolding Uc_def by metis
  define kA kB kC where "kA = (of_int ka :: real) / 100" and "kB = (of_int kb :: real) / 100"
    and "kC = (of_int kc :: real) / 100"
  define z where "z = xa + xb - xc"
  define X where "X = xa + xb + xc"
  define S where "S = Ua + Ub + Uc"
  define K where "K = ka + kb - kc"
  define Kr where "Kr = kA + kB - kC"
  have Kr: "Kr = of_int K / 100"
    by (simp add: Kr_def K_def kA_def kB_def kC_def add_divide_distrib diff_divide_distrib)
  have fa: "Ua - kA \<le> Ua / 9007199254740992" "kA - Ua \<le> Ua / 9007199254740992"
    using ka(4,5) unfolding kA_def by argo+
  have fb: "Ub - kB \<le> Ub / 9007199254740992" "kB - Ub \<le> Ub / 9007199254740992"
    using kb(4,5) unfolding kB_def by argo+
  have fc: "Uc - kC \<le> Uc / 9007199254740992" "kC - Uc \<le> Uc / 9007199254740992"
    using kc(4,5) unfolding kC_def by argo+
  have ga: "kA - xa \<le> 1 / 200" "xa - kA \<le> 1 / 200" using ka(1,2) unfolding kA_def by argo+
  have gb: "kB - xb \<le> 1 / 200" "xb - kB \<le> 1 / 200" using kb(1,2) unfolding kB_def by argo+
  have gc: "kC - xc \<le> 1 / 200" "xc - kC \<le> 1 / 200" using kc(1,2) unfolding kC_def by argo+
  have S0: "0 \<le> S" using ka(3) kb(3) kc(3) unfolding S_def by argo
  have X0: "0 \<le> X" using ea(1) eb(1) ec(1) unfolding X_def by argo
  have s1: "Ua + Ub - Uc - Kr \<le> S / 9007199254740992"
    using fa(1) fb(1) fc(2) unfolding S_def Kr_def by argo
  have s2: "Kr - (Ua + Ub - Uc) \<le> S / 9007199254740992"
    using fa(2) fb(2) fc(1) unfolding S_def Kr_def by argo
  have kz: "Kr - z \<le> 3 / 200" "z - Kr \<le> 3 / 200"
    using ga gb gc unfolding Kr_def z_def by argo+
  have Xb: "X \<le> S + S / 9007199254740992 + 3 / 200"
    using ga(2) gb(2) gc(2) fa(2) fb(2) fc(2) unfolding X_def S_def by argo
  have zX: "z \<le> X / 9007199254740992" "- z \<le> X / 9007199254740992"
    using ea(2,3) eb(2,3) ec(2,3) sum unfolding z_def X_def by argo+
  have Kb: "Kr \<le> 1 / 100 + 4 * (X / 9007199254740992)"
    "- Kr \<le> 1 / 100 + 4 * (X / 9007199254740992)"
  proof -
    have "Kr \<le> 1 / 100 + 4 * (X / 9007199254740992)
          \<and> - Kr \<le> 1 / 100 + 4 * (X / 9007199254740992)"
    proof (cases "- (1 / 200) < z \<and> z < 1 / 200")
      case True
      with kz have "Kr < 2 / 100" "- (2 / 100) < Kr" by argo+
      then have "(of_int K :: real) < 2" "- 2 < (of_int K :: real)" unfolding Kr by argo+
      then have "K < 2" "- 2 < K" by linarith+
      then have "K \<le> 1" "- 1 \<le> K" by simp_all
      then have "(of_int K :: real) \<le> 1" "- 1 \<le> (of_int K :: real)" by linarith+
      then have "Kr \<le> 1 / 100" "- Kr \<le> 1 / 100" unfolding Kr by argo+
      with X0 show ?thesis by argo
    next
      case False
      with kz zX show ?thesis by argo
    qed
    then show "Kr \<le> 1 / 100 + 4 * (X / 9007199254740992)"
      and "- Kr \<le> 1 / 100 + 4 * (X / 9007199254740992)" by simp_all
  qed
  have up: "Ua + Ub - Uc \<le> 1 / 100 + (1 / 100 + S) / 1125899906842624"
    using s1 Kb(1) Xb S0 by argo
  have down: "- (Ua + Ub - Uc) \<le> 1 / 100 + (1 / 100 + S) / 1125899906842624"
    using s2 Kb(2) Xb S0 by argo
  from up down
  have goal: "\<bar>Ua + Ub - Uc\<bar> \<le> 1 / 100 + (1 / 100 + Ua + Ub + Uc) / 1125899906842624"
    unfolding S_def by (simp add: abs_le_iff add.assoc)
  have "(2::real) ^ 50 = 1125899906842624" by simp
  with goal show ?thesis
    unfolding Ua_def Ub_def Uc_def xa_def xb_def xc_def by (simp only:)
qed

section \<open>Results that do not depend on the monitor\<close>

lemma usage_step_fst: "fst (usage_step e part um m) = fst (usage_step e part um m')"
  by (simp add: usage_step_def Let_def split: sum.splits)

lemma usage_loop_fst: "fst (usage_loop e ps um m) = fst (usage_loop e ps um m')"
proof (induction ps arbitrary: um m m')
  case Nil
  then show ?case by simp
next
  case (Cons p ps)
  obtain r1 m1 where s1: "usage_step e p um m = (r1, m1)" by (cases "usage_step e p um m")
  obtain r2 m2 where s2: "usage_step e p um m' = (r2, m2)" by (cases "usage_step e p um m'")
  from usage_step_fst [of e p um m m'] s1 s2 have eq: "r2 = r1" by simp
  show ?case
  proof (cases r1)
    case (Inl err)
    with s1 s2 eq show ?thesis by simp
  next
    case (Inr um1)
    with s1 s2 eq Cons.IH [of um1 m1 m2] show ?thesis by simp
  qed
qed

lemma sensor_step_fst: "fst (sensor_step name s ts m) = fst (sensor_step name s ts m')"
  by (simp add: sensor_step_def Let_def)

lemma sensor_loop_fst: "fst (sensor_loop name sl ts m) = fst (sensor_loop name sl ts m')"
proof (induction sl arbitrary: ts m m')
  case Nil
  then show ?case by simp
next
  case (Cons s sl)
  obtain t1 m1 where s1: "sensor_step name s ts m = (t1, m1)" by (cases "sensor_step name s ts m")
  obtain t2 m2 where s2: "sensor_step name s ts m' = (t2, m2)"
    by (cases "sensor_step name s ts m'")
  from sensor_step_fst [of name s ts m m'] s1 s2 have "t2 = t1" by simp
  with s1 s2 Cons.IH [of t1 m1 m2] show ?case by simp
qed

lemma sensors_loop_fst: "fst (sensors_loop gs ts m) = fst (sensors_loop gs ts m')"
proof (induction gs arbitrary: ts m m')
  case Nil
  then show ?case by simp
next
  case (Cons g gs)
  obtain name sl where g: "g = (name, sl)" by (cases g)
  obtain t1 m1 where s1: "sensor_loop name sl ts m = (t1, m1)"
    by (cases "sensor_loop name sl ts m")
  obtain t2 m2 where s2: "sensor_loop name sl ts m' = (t2, m2)"
    by (cases "sensor_loop name sl ts m'")
  from sensor_loop_fst [of name sl ts m m'] s1 s2 have "t2 = t1" by simp
  with g s1 s2 Cons.IH [of t1 m1 m2] Cons.IH [of ts m m'] show ?case by simp
qed

lemma get_drive_temperatures_fst:
  "fst (get_drive_temperatures e m) = fst (get_drive_temperatures e m')"
  by (simp add: get_drive_temperatures_def sensors_loop_fst [of _ _ m m'] split: sum.splits)

lemma check_smart_data_fst: "fst (check_smart_data e m p) = fst (check_smart_data e m' p)"
  by (simp add: check_smart_data_def split: sum.splits bool.splits)

lemma smart_loop_fst: "fst (smart_loop e devs sd m) = fst (smart_loop e devs sd m')"
proof (induction devs arbitrary: sd m m')
  case Nil
  then show ?case by simp
next
  case (Cons d ds)
  show ?case
  proof (cases "device_path_of d")
    case (Inl err)
    then show ?thesis by simp
  next
    case (Inr p)
    obtain v1 m1 where c1: "check_smart_data e m p = (v1, m1)"
      by (cases "check_smart_data e m p")
    obtain v2 m2 where c2: "check_smart_data e m' p = (v2, m2)"
      by (cases "check_smart_data e m' p")
    from check_smart_data_fst [of e m p m'] c1 c2 have "v2 = v1" by simp
    with Inr c1 c2 Cons.IH [of "AList.update d v1 sd" m1 m2] show ?thesis by simp
  qed
qed

lemma run_full_check_error:
  "(fst (run_full_check e m) = Inl err) = (fst (run_full_check e m') = Inl err)"
proof -
  obtain ru m1 where u1: "get_disk_usage e m = (ru, m1)" by (cases "get_disk_usage e m")
  obtain ru' m1' where u2: "get_disk_usage e m' = (ru', m1')" by (cases "get_disk_usage e m'")
  from usage_loop_fst [of e "psutil_disk_partitions e" "[]" m m'] u1 u2 have ru: "ru' = ru"
    by (simp add: get_disk_usage_def)
  show ?thesis
  proof (cases ru)
    case (Inl err')
    with u1 u2 ru show ?thesis by (simp add: run_full_check_def)
  next
    case (Inr um)
    obtain ts m2 where t1: "get_drive_temperatures e m1 = (ts, m2)"
      by (cases "get_drive_temperatures e m1")
    obtain ts' m2' where t2: "get_drive_temperatures e m1' = (ts', m2')"
      by (cases "get_drive_temperatures e m1'")
    obtain rs m3 where s1: "smart_loop e (map fst um) [] m2 = (rs, m3)"
      by (cases "smart_loop e (map fst um) [] m2")
    obtain rs' m3' where s2: "smart_loop e (map fst um) [] m2' = (rs', m3')"
      by (cases "smart_loop e (map fst um) [] m2'")
    from smart_loop_fst [of e "map fst um" "[]" m2 m2'] s1 s2 have rs: "rs' = rs" by simp
    from u1 u2 ru Inr t1 t2 s1 s2 rs show ?thesis
      by (cases rs) (simp_all add: run_full_check_def)
  qed
qed

section \<open>The monitor after an operation\<close>

lemma usage_step_frame: "\<exists>as. snd (usage_step e part um m) = m\<lparr>alerts := alerts m @ as\<rparr>"
proof -
  have "snd (usage_step e part um m) = m
        \<or> (\<exists>a. snd (usage_step e part um m) = m\<lparr>alerts := alerts m @ [a]\<rparr>)"
    by (auto simp: usage_step_def py_truediv_def Let_def split: sum.splits)
  then show ?thesis
  proof
    assume "snd (usage_step e part um m) = m"
    then have "snd (usage_step e part um m) = m\<lparr>alerts := alerts m @ []\<rparr>" by simp
    then show ?thesis by blast
  next
    assume "\<exists>a. snd (usage_step e part um m) = m\<lparr>alerts := alerts m @ [a]\<rparr>"
    then show ?thesis by blast
  qed
qed

lemma usage_loop_frame: "\<exists>as. snd (usage_loop e ps um m) = m\<lparr>alerts := alerts m @ as\<rparr>"
proof (induction ps arbitrary: um m)
  case Nil
  have "snd (usage_loop e [] um m) = m\<lparr>alerts := alerts m @ []\<rparr>" by simp
  then show ?case by blast
next
  case (Cons p ps)
  obtain res m1 where step: "usage_step e p um m = (res, m1)" by (cases "usage_step e p um m")
  with usage_step_frame [of e p um m] obtain as where m1: "m1 = m\<lparr>alerts := alerts m @ as\<rparr>"
    by auto
  show ?case
  proof (cases res)
    case (Inl err)
    with step m1 show ?thesis by auto
  next
    case (Inr um1)
    from Cons.IH [of um1 m1] obtain bs where
      "snd (usage_loop e ps um1 m1) = m1\<lparr>alerts := alerts m1 @ bs\<rparr>" by blast
    with step Inr m1 have "snd (usage_loop e (p # ps) um m) = m\<lparr>alerts := alerts m @ (as @ bs)\<rparr>"
      by simp
    then show ?thesis by blast
  qed
qed

lemma smart_loop_frame: "\<exists>as. snd (smart_loop e devs sd m) = m\<lparr>alerts := alerts m @ as\<rparr>"
proof (induction devs arbitrary: sd m)
  case Nil
  have "snd (smart_loop e [] sd m) = m\<lparr>alerts := alerts m @ []\<rparr>" by simp
  then show ?case by blast
next
  case (Cons d ds)
  show ?case
  proof (cases "device_path_of d")
    case (Inl err)
    then have "snd (smart_loop e (d # ds) sd m) = m\<lparr>alerts := alerts m @ []\<rparr>" by simp
    then show ?thesis by blast
  next
    case (Inr p)
    obtain v m1 where chk: "check_smart_data e m p = (v, m1)" by (cases "check_smart_data e m p")
    with check_smart_data_alerts [of e m p]
    have "m1 = m\<lparr>alerts := alerts m @ (if smart_status_failed e p then [SmartAlert p] else [])\<rparr>"
      by simp
    then obtain as where m1: "m1 = m\<lparr>alerts := alerts m @ as\<rparr>" by blast
    from Cons.IH [of "AList.update d v sd" m1] obtain bs where
      "snd (smart_loop e ds (AList.update d v sd) m1) = m1\<lparr>alerts := alerts m1 @ bs\<rparr>" by blast
    with Inr chk m1 have "snd (smart_loop e (d # ds) sd m) = m\<lparr>alerts := alerts m @ (as @ bs)\<rparr>"
      by simp
    then show ?thesis by blast
  qed
qed

lemma run_full_check_frame: "\<exists>as. snd (run_full_check e m) = m\<lparr>alerts := alerts m @ as\<rparr>"
proof -
  obtain ru m1 where u: "get_disk_usage e m = (ru, m1)" by (cases "get_disk_usage e m")
  with usage_loop_frame [of e "psutil_disk_partitions e" "[]" m] obtain as where
    m1: "m1 = m\<lparr>alerts := alerts m @ as\<rparr>" by (auto simp: get_disk_usage_def)
  show ?thesis
  proof (cases ru)
    case (Inl err)
    with u m1 show ?thesis by (auto simp: run_full_check_def)
  next
    case (Inr um)
    obtain ts m2 where t: "get_drive_temperatures e m1 = (ts, m2)"
      by (cases "get_drive_temperatures e m1")
    from get_drive_temperatures_alerts [OF t] obtain bs where
      m2: "m2 = m1\<lparr>alerts := alerts m1 @ bs\<rparr>" by blast
    obtain rs m3 where s: "smart_loop e (map fst um) [] m2 = (rs, m3)"
      by (cases "smart_loop e (map fst um) [] m2")
    with smart_loop_frame [of e "map fst um" "[]" m2] obtain cs where
      m3: "m3 = m2\<lparr>alerts := alerts m2 @ cs\<rparr>" by auto
    from m1 m2 m3 have "m3 = m\<lparr>alerts := alerts m @ (as @ bs @ cs)\<rparr>" by simp
    with u Inr t s show ?thesis by (cases rs) (auto simp: run_full_check_def)
  qed
qed

section \<open>More on the collectors\<close>

lemma set_update_subset: "x \<in> set (AList.update k v al) \<Longrightarrow> x = (k, v) \<or> x \<in> set al"
  by (induction al) (auto split: if_splits)

lemma usage_step_origin:
  assumes step: "usage_step e part um m = (Inr um', m')" and mem: "(dev, v) \<in> set um'"
  shows "(dev, v) \<in> set um \<or>
         (device part = dev \<and>
          (\<exists>usage. psutil_disk_usage e (mountpoint part) = Inr usage \<and> 0 < total usage
             \<and> total_gb v = py_round (true_quotient (total usage) gib) 2
             \<and> used_gb v = py_round (true_quotient (used usage) gib) 2
             \<and> free_gb v = py_round (true_quotient (free usage) gib) 2))"
proof (cases "psutil_disk_usage e (mountpoint part)")
  case (Inl err)
  with step have "um' = um" by (auto simp: usage_step_def split: if_splits)
  with mem show ?thesis by simp
next
  case (Inr usage)
  with step have pos: "0 < total usage"
    by (auto simp: usage_step_def py_truediv_def split: if_splits)
  from step Inr have "um' = AList.update (device part)
      \<lparr>volume_mountpoint = mountpoint part,
       total_gb = py_round (true_quotient (total usage) gib) 2,
       used_gb = py_round (true_quotient (used usage) gib) 2,
       free_gb = py_round (true_quotient (free usage) gib) 2,
       percent_used = py_round (float_mul (true_quotient (used usage) (total usage)) 100) 1\<rparr> um"
    by (auto simp: usage_step_def py_truediv_def Let_def split: if_splits)
  with mem set_update_subset have "(dev, v) = (device part, \<lparr>volume_mountpoint = mountpoint part,
       total_gb = py_round (true_quotient (total usage) gib) 2,
       used_gb = py_round (true_quotient (used usage) gib) 2,
       free_gb = py_round (true_quotient (free usage) gib) 2,
       percent_used = py_round (float_mul (true_quotient (used usage) (total usage)) 100) 1\<rparr>)
       \<or> (dev, v) \<in> set um" by fastforce
  with Inr pos show ?thesis by auto
qed

lemma usage_loop_origin:
  "usage_loop e ps um m = (Inr um', m') \<Longrightarrow> (dev, v) \<in> set um' \<Longrightarrow>
     (dev, v) \<in> set um \<or>
     (\<exists>part\<in>set ps. device part = dev \<and>
        (\<exists>usage. psutil_disk_usage e (mountpoint part) = Inr usage \<and> 0 < total usage
           \<and> total_gb v = py_round (true_quotient (total usage) gib) 2
           \<and> used_gb v = py_round (true_quotient (used usage) gib) 2
           \<and> free_gb v = py_round (true_quotient (free usage) gib) 2))"
proof (induction ps arbitrary: um m)
  case Nil
  then show ?case by simp
next
  case (Cons p ps)
  from Cons.prems(1) obtain um1 m1 where
    step: "usage_step e p um m = (Inr um1, m1)" and
    rest: "usage_loop e ps um1 m1 = (Inr um', m')"
    by (auto split: prod.splits sum.splits)
  from Cons.IH [OF rest Cons.prems(2)] show ?case
  proof
    assume "(dev, v) \<in> set um1"
    from usage_step_origin [OF step this] show ?thesis by auto
  next
    assume "\<exists>part\<in>set ps. device part = dev \<and>
        (\<exists>usage. psutil_disk_usage e (mountpoint part) = Inr usage \<and> 0 < total usage
           \<and> total_gb v = py_round (true_quotient (total usage) gib) 2
           \<and> used_gb v = py_round (true_quotient (used usage) gib) 2
           \<and> free_gb v = py_round (true_quotient (free usage) gib) 2)"
    then show ?thesis by auto
  qed
qed



lemma smart_loop_verdict:
  "smart_loop e devs sd m = (Inr sd', m') \<Longrightarrow> dev \<in> set devs \<Longrightarrow>
     device_path_of dev = Inr p \<Longrightarrow>
     map_of sd' dev = Some (fst (check_smart_data e m0 p))"
proof (induction devs arbitrary: sd m)
  case Nil
  then show ?case by simp
next
  case (Cons d ds)
  from Cons.prems obtain q where q: "device_path_of d = Inr q"
    by (auto split: sum.splits)
  obtain v m1 where chk: "check_smart_data e m q = (v, m1)" by (cases "check_smart_data e m q")
  with Cons.prems q have rest: "smart_loop e ds (AList.update d v sd) m1 = (Inr sd', m')"
    by simp
  show ?case
  proof (cases "dev \<in> set ds")
    case True
    from Cons.IH [OF rest True Cons.prems(3)] show ?thesis .
  next
    case False
    with Cons.prems(2) have d: "d = dev" by simp
    with q Cons.prems(3) have "q = p" by simp
    with chk check_smart_data_fst [of e m p m0] have "v = fst (check_smart_data e m0 p)" by simp
    with smart_loop_other [OF rest False] d show ?thesis by (simp add: update_conv')
  qed
qed

lemma usage_float:
  "get_disk_usage env_float monitor0
     = (Inr [(str ''/dev/sdd1'',
              \<lparr>volume_mountpoint = str ''/'',
                 total_gb = 1846211964431237 / 4398046511104,
                 used_gb = 1439128779363451 / 8796093022208,
                 free_gb = 4506766220858491 / 17592186044416,
                 percent_used = 39\<rparr>)], monitor0)"
  by (simp add: eval_simps env_float_def monitor0_def)





section \<open>The claims\<close>

text \<open>
  C1. Whenever \<open>run_full_check\<close> returns a report, its \<open>healthy\<close> flag is true
  exactly when the alert list put into the report is empty, whatever the collaborators
  presented and whatever the monitor held before.
\<close>

theorem healthy_iff_no_alerts:
  "run_full_check e m = (Inr r, m') \<Longrightarrow> healthy r = (report_alerts r = [])"
  by (rule run_full_check_alerts(3))

theorem healthy_iff_no_alerts_witness:
  "run_full_check env_alerting monitor0 = (Inr (report_alerting []), monitor0\<lparr>alerts := alerts_alerting\<rparr>)
   \<and> healthy (report_alerting []) = (report_alerts (report_alerting []) = [])
   \<and> \<not> healthy (report_alerting [])
   \<and> run_full_check env_quiet monitor0 = (Inr (report_quiet []), monitor0)
   \<and> healthy (report_quiet []) = (report_alerts (report_quiet []) = [])
   \<and> healthy (report_quiet [])"
proof -
  have a: "run_full_check env_alerting monitor0
             = (Inr (report_alerting []), monitor0\<lparr>alerts := alerts_alerting\<rparr>)"
    using run_alerting [of "[]"] by (simp add: monitor0_def)
  have q: "run_full_check env_quiet monitor0 = (Inr (report_quiet []), monitor0)"
    using run_quiet [of "[]"] by (simp add: monitor0_def)
  from a q healthy_iff_no_alerts [OF a] healthy_iff_no_alerts [OF q] show ?thesis
    by (simp add: report_alerting_def report_quiet_def)
qed

text \<open>
  C2. The claim: a volume whose total is zero bytes is left out of the percentage
  computation and still reported. The code divides \<open>usage.used\<close> by \<open>usage.total\<close>
  without a guard and catches PermissionError only: in \<open>env_zero\<close>, whose first volume
  has a total of zero, the collection and the whole check end with ZeroDivisionError,
  nothing is reported for that volume nor for the healthy one after it.
\<close>

theorem zero_total_aborts_collection:
  "get_disk_usage env_zero monitor0 = (Inl ZeroDivisionError, monitor0)
   \<and> run_full_check env_zero monitor0 = (Inl ZeroDivisionError, monitor0)"
  by (simp add: eval_simps env_zero_def monitor0_def)



text \<open>
  C4. The claim: construction with a usage threshold outside the interval from 0 to 100
  raises a ConfigurationError. The constructor has no check and no \<open>raise\<close>: with a
  usage threshold of 150, or of -5, it returns a monitor that holds that threshold.
\<close>

theorem construction_out_of_range_counterexample:
  "SSDHealthMonitor_init 70 150
     = Inr \<lparr>temp_threshold = 70, usage_threshold = 150, alerts = []\<rparr>
   \<and> \<not> isl (SSDHealthMonitor_init 70 150)
   \<and> \<not> (0 \<le> (150::real) \<and> (150::real) \<le> 100)
   \<and> SSDHealthMonitor_init 70 (- 5)
     = Inr \<lparr>temp_threshold = 70, usage_threshold = - 5, alerts = []\<rparr>"
  by (simp add: SSDHealthMonitor_init_def)

text \<open>
  C4, as the code has it: construction succeeds for every pair of thresholds, stores both
  as given and starts with an empty alert list. Nothing checks the thresholds afterwards
  either: every operation returns the monitor with the thresholds it got, and whether
  \<open>run_full_check\<close> raises, and which error, is the same for every pair of thresholds.
\<close>

theorem construction_stores_thresholds_unchecked:
  "SSDHealthMonitor_init temp_thr usage_thr
     = Inr \<lparr>temp_threshold = temp_thr, usage_threshold = usage_thr, alerts = []\<rparr>
   \<and> temp_threshold (snd (get_disk_usage e m)) = temp_threshold m
   \<and> usage_threshold (snd (get_disk_usage e m)) = usage_threshold m
   \<and> temp_threshold (snd (get_drive_temperatures e m)) = temp_threshold m
   \<and> usage_threshold (snd (get_drive_temperatures e m)) = usage_threshold m
   \<and> temp_threshold (snd (check_smart_data e m p)) = temp_threshold m
   \<and> usage_threshold (snd (check_smart_data e m p)) = usage_threshold m
   \<and> temp_threshold (snd (run_full_check e m)) = temp_threshold m
   \<and> usage_threshold (snd (run_full_check e m)) = usage_threshold m
   \<and> (fst (run_full_check e m) = Inl err)
       = (fst (run_full_check e (m\<lparr>temp_threshold := t', usage_threshold := u'\<rparr>)) = Inl err)"
proof -
  obtain as where u: "snd (get_disk_usage e m) = m\<lparr>alerts := alerts m @ as\<rparr>"
    using usage_loop_frame [of e "psutil_disk_partitions e" "[]" m]
    by (auto simp: get_disk_usage_def)
  have t: "snd (get_drive_temperatures e m)
      = m\<lparr>alerts := alerts m @ raised_temperature e (temp_threshold m)\<rparr>"
    using get_drive_temperatures_alerts [of e m] by (metis prod.collapse)
  obtain cs where r: "snd (run_full_check e m) = m\<lparr>alerts := alerts m @ cs\<rparr>"
    using run_full_check_frame by blast
  from u t r run_full_check_error [of e m err] show ?thesis
    by (simp add: SSDHealthMonitor_init_def check_smart_data_alerts)
qed

text \<open>
  C6. The claim: a key that is a single letter followed by a colon is translated by the
  ordinal mapping, any other key is passed through unchanged. The test of the code is
  \<open>device.endswith(':')\<close> and the letter is computed from the first character as an
  offset from upper-case A: the key \<open>AB:\<close> is not passed through but becomes
  \<open>/dev/sda\<close>, and the single lower-case letter of \<open>c:\<close> does not give
  \<open>/dev/sdc\<close> but the code point 131.
\<close>

theorem device_path_translation_counterexample:
  "device_path_of (str ''AB:'') = Inr (str ''/dev/sda'')
   \<and> str ''AB:'' \<noteq> str ''/dev/sda''
   \<and> device_path_of (str ''c:'') = Inr (str ''/dev/sd'' @ [131])
   \<and> str ''/dev/sd'' @ [131] \<noteq> str ''/dev/sdc''"
  by (simp add: device_path_of_def endswith_def suffix_to_prefix py_chr_def str_def)

lemma endswith_colon: "endswith (c # middle @ str '':'') (str '':'')"
  by (simp add: endswith_def str_def suffix_def)

text \<open>
  C6, as the code has it: a key that does not end with a colon is passed through
  unchanged; a key that ends with a colon and starts with an upper-case letter A to Z is
  translated to \<open>/dev/sd\<close> followed by the lower-case letter of the same ordinal
  (A to \<open>/dev/sda\<close>, B to \<open>/dev/sdb\<close>, and so on), whatever stands between the
  two; and the SMART check is run on the translated path while its verdict is stored
  under the key itself.
\<close>

theorem device_path_translation:
  "(\<not> endswith dev (str '':'') \<longrightarrow> device_path_of dev = Inr dev)
   \<and> (65 \<le> c \<and> c \<le> 90 \<longrightarrow>
        device_path_of (c # middle @ str '':'') = Inr (str ''/dev/sd'' @ [97 + (c - 65)]))
   \<and> (device_path_of dev = Inr device_path \<longrightarrow>
        smart_loop e [dev] verdicts m =
          (Inr (AList.update dev (fst (check_smart_data e m device_path)) verdicts),
           snd (check_smart_data e m device_path)))"
proof (intro conjI impI)
  assume "\<not> endswith dev (str '':'')"
  then show "device_path_of dev = Inr dev" by (simp add: device_path_of_def)
next
  assume c: "65 \<le> c \<and> c \<le> 90"
  then have "py_chr (97 + int c - 65) = Inr (97 + (c - 65))"
    by (auto simp: py_chr_def)
  with endswith_colon [of c middle]
  show "device_path_of (c # middle @ str '':'') = Inr (str ''/dev/sd'' @ [97 + (c - 65)])"
    by (simp add: device_path_of_def)
next
  assume "device_path_of dev = Inr device_path"
  then show "smart_loop e [dev] verdicts m =
          (Inr (AList.update dev (fst (check_smart_data e m device_path)) verdicts),
           snd (check_smart_data e m device_path))"
    by (simp split: prod.splits)
qed

theorem device_path_translation_witness:
  "\<not> endswith (str ''/dev/sda1'') (str '':'')
   \<and> device_path_of (str ''/dev/sda1'') = Inr (str ''/dev/sda1'')
   \<and> device_path_of (str ''A:'') = Inr (str ''/dev/sda'')
   \<and> device_path_of (str ''C:'') = Inr (str ''/dev/sdc'')
   \<and> smart_loop env_alerting [str ''C:''] [] monitor0 = (Inr [(str ''C:'', JObj [])], monitor0)"
proof -
  have n: "\<not> endswith (str ''/dev/sda1'') (str '':'')"
    by (simp add: endswith_def str_def suffix_to_prefix)
  have chk: "check_smart_data env_alerting monitor0 (str ''/dev/sdc'') = (JObj [], monitor0)"
    by (simp add: check_smart_data_def env_alerting_def smartctl_argv_def str_def)
  from n chk
    device_path_translation [of "str ''/dev/sda1''" 65 "[]" "str ''/dev/sda1''" env_alerting "[]" monitor0]
    device_path_translation [of "str ''C:''" 67 "[]" "str ''/dev/sdc''" env_alerting "[]" monitor0]
  show ?thesis by (simp add: str_def)
qed

lemma sensors_loop_none:
  "concat (map (\<lambda>g. if storage_sensor (fst g) then snd g else []) gs) = [] \<Longrightarrow>
     sensors_loop gs ts m = (ts, m)"
proof (induction gs arbitrary: ts m)
  case Nil
  then show ?case by simp
next
  case (Cons g gs)
  obtain name sl where g: "g = (name, sl)" by (cases g)
  from Cons.prems g have here: "storage_sensor name \<longrightarrow> sl = []"
    and rest: "concat (map (\<lambda>g. if storage_sensor (fst g) then snd g else []) gs) = []"
    by (auto split: if_splits)
  from Cons.IH [OF rest] here g show ?case by auto
qed

text \<open>
  C7. When the sensor call raises, when it returns no sensor group at all, and when no
  storage group holds a sensor, \<open>get_drive_temperatures\<close> returns the empty dict and
  leaves the monitor, and so its alert list, as it was. The method has no outcome other
  than a dict: every exception of its body is caught.
\<close>

theorem no_sensors_is_not_an_error:
  "(psutil_sensors_temperatures e = Inl err \<longrightarrow> get_drive_temperatures e m = ([], m))
   \<and> (psutil_sensors_temperatures e = Inr [] \<longrightarrow> get_drive_temperatures e m = ([], m))
   \<and> (qualifying_sensors e = [] \<longrightarrow> get_drive_temperatures e m = ([], m))"
  by (auto simp: get_drive_temperatures_def qualifying_sensors_def sensors_loop_none
      split: sum.splits)

text \<open>
  The sensor call raises in \<open>env_zero\<close>; in \<open>env_rounding\<close> the only group is
  \<open>core\<close>, which no keyword matches, although its sensor reads 95 degrees.
\<close>

theorem no_sensors_is_not_an_error_witness:
  "psutil_sensors_temperatures env_zero = Inl OtherException
   \<and> get_drive_temperatures env_zero monitor0 = ([], monitor0)
   \<and> psutil_sensors_temperatures (env_zero\<lparr>psutil_sensors_temperatures := Inr []\<rparr>) = Inr []
   \<and> get_drive_temperatures (env_zero\<lparr>psutil_sensors_temperatures := Inr []\<rparr>) monitor0
       = ([], monitor0)
   \<and> psutil_sensors_temperatures env_rounding
       = Inr [(str ''core'', [\<lparr>label = str ''b'', current = 95\<rparr>])]
   \<and> qualifying_sensors env_rounding = []
   \<and> get_drive_temperatures env_rounding monitor0 = ([], monitor0)"
proof -
  have z: "psutil_sensors_temperatures env_zero = Inl OtherException"
    by (simp add: env_zero_def)
  have n: "psutil_sensors_temperatures (env_zero\<lparr>psutil_sensors_temperatures := Inr []\<rparr>) = Inr []"
    by simp
  have r: "psutil_sensors_temperatures env_rounding
       = Inr [(str ''core'', [\<lparr>label = str ''b'', current = 95\<rparr>])]"
    by (simp add: env_rounding_def)
  have q: "qualifying_sensors env_rounding = []"
    by (simp add: qualifying_sensors_def env_rounding_def storage_sensor_def
        storage_keywords_def lower_def lower_char_def str_def)
  from z n r q
    no_sensors_is_not_an_error [of env_zero OtherException monitor0]
    no_sensors_is_not_an_error [of "env_zero\<lparr>psutil_sensors_temperatures := Inr []\<rparr>" _ monitor0]
    no_sensors_is_not_an_error [of env_rounding _ monitor0]
  show ?thesis by simp
qed

lemma run_full_check_smart_loop:
  assumes "run_full_check e m = (Inr r, m')"
  shows "\<exists>m2. smart_loop e (map fst (disk_usage r)) [] m2 = (Inr (smart_data r), m')"
proof -
  from assms obtain um m1 where
    u: "get_disk_usage e m = (Inr um, m1)"
    by (auto simp: run_full_check_def split: prod.splits sum.splits)
  obtain ts m2 where t: "get_drive_temperatures e m1 = (ts, m2)"
    by (cases "get_drive_temperatures e m1")
  from assms u t obtain sd m3 where
    s: "smart_loop e (map fst um) [] m2 = (Inr sd, m3)"
    by (auto simp: run_full_check_def split: prod.splits sum.splits)
  from assms u t s have "disk_usage r = um" "smart_data r = sd" "m' = m3"
    by (auto simp: run_full_check_def)
  with s show ?thesis by auto
qed

text \<open>
  C8. The claim: with \<open>used + free = total\<close> the reported \<open>used_gb + free_gb\<close>
  is within 0.01 of \<open>total_gb\<close>. The three values are floats, each the nearest to a
  two-place decimal; the decimals can differ by a full 0.01, and then the errors of the
  floats decide: for the volume of \<open>env_float\<close> the reported values are the floats of
  163.61, 256.18 and 419.78, and \<open>used_gb + free_gb - total_gb\<close> is
  175921860445 / 2 ^ 44, which is more than 0.01.
\<close>

theorem reported_sizes_exceed_tolerance_counterexample:
  "get_disk_usage env_float monitor0
     = (Inr [(str ''/dev/sdd1'',
              \<lparr>volume_mountpoint = str ''/'',
                 total_gb = 1846211964431237 / 4398046511104,
                 used_gb = 1439128779363451 / 8796093022208,
                 free_gb = 4506766220858491 / 17592186044416,
                 percent_used = 39\<rparr>)], monitor0)
   \<and> psutil_disk_usage env_float (str ''/'')
     = Inr \<lparr>total = 450736508928, used = 175670292480, free = 275066216448\<rparr>
   \<and> 175670292480 + 275066216448 = (450736508928::nat)
   \<and> (1439128779363451 / 8796093022208 + 4506766220858491 / 17592186044416
        - 1846211964431237 / 4398046511104 :: real) = 175921860445 / 17592186044416
   \<and> \<not> \<bar>1439128779363451 / 8796093022208 + 4506766220858491 / 17592186044416
        - 1846211964431237 / 4398046511104 :: real\<bar> \<le> 1 / 100"
  using usage_float by (simp add: env_float_def)

text \<open>
  C8, as the code has it: every volume in the dict that \<open>get_disk_usage\<close> returns was
  computed from a partition of that device whose total is positive; its three sizes are
  the float quotients of the byte counts by \<open>1024 ^ 3\<close>, rounded to two places; and
  when the byte counts satisfy \<open>used + free = total\<close>, the reported
  \<open>used_gb + free_gb\<close> differs from \<open>total_gb\<close> by at most 0.01 plus the float
  error, which is at most \<open>2 ^ -50\<close> of 0.01 plus the three reported values.
\<close>

theorem reported_sizes_add_up:
  assumes "get_disk_usage e m = (Inr um, m')" and "(dev, v) \<in> set um"
  shows "\<exists>part\<in>set (psutil_disk_partitions e). \<exists>usage.
           device part = dev \<and> psutil_disk_usage e (mountpoint part) = Inr usage
           \<and> 0 < total usage
           \<and> total_gb v = py_round (true_quotient (total usage) gib) 2
           \<and> used_gb v = py_round (true_quotient (used usage) gib) 2
           \<and> free_gb v = py_round (true_quotient (free usage) gib) 2
           \<and> (used usage + free usage = total usage \<longrightarrow>
                 \<bar>used_gb v + free_gb v - total_gb v\<bar>
                   \<le> 1 / 100 + (1 / 100 + used_gb v + free_gb v + total_gb v) / 2 ^ 50)"
proof -
  from assms(1) have "usage_loop e (psutil_disk_partitions e) [] m = (Inr um, m')"
    by (simp add: get_disk_usage_def)
  from usage_loop_origin [OF this assms(2)] obtain part usage where
    part: "part \<in> set (psutil_disk_partitions e)" "device part = dev"
      "psutil_disk_usage e (mountpoint part) = Inr usage" "0 < total usage" and
    v: "total_gb v = py_round (true_quotient (total usage) gib) 2"
      "used_gb v = py_round (true_quotient (used usage) gib) 2"
      "free_gb v = py_round (true_quotient (free usage) gib) 2"
    by auto
  from v rounded_parts_add_up [of "used usage" "free usage" "total usage"]
  have "used usage + free usage = total usage \<longrightarrow>
          \<bar>used_gb v + free_gb v - total_gb v\<bar>
            \<le> 1 / 100 + (1 / 100 + used_gb v + free_gb v + total_gb v) / 2 ^ 50" by simp
  with part v show ?thesis by blast
qed

text \<open>The volume of \<open>env_float\<close> is within the amended bound.\<close>

theorem reported_sizes_add_up_witness:
  "get_disk_usage env_float monitor0
     = (Inr [(str ''/dev/sdd1'',
              \<lparr>volume_mountpoint = str ''/'',
                 total_gb = 1846211964431237 / 4398046511104,
                 used_gb = 1439128779363451 / 8796093022208,
                 free_gb = 4506766220858491 / 17592186044416,
                 percent_used = 39\<rparr>)], monitor0)
   \<and> psutil_disk_usage env_float (str ''/'')
     = Inr \<lparr>total = 450736508928, used = 175670292480, free = 275066216448\<rparr>
   \<and> 175670292480 + 275066216448 = (450736508928::nat)
   \<and> \<bar>1439128779363451 / 8796093022208 + 4506766220858491 / 17592186044416
        - 1846211964431237 / 4398046511104 :: real\<bar>
       \<le> 1 / 100 + (1 / 100 + 1439128779363451 / 8796093022208
             + 4506766220858491 / 17592186044416 + 1846211964431237 / 4398046511104) / 2 ^ 50"
proof -
  let ?v = "\<lparr>volume_mountpoint = str ''/'',
                 total_gb = 1846211964431237 / 4398046511104,
                 used_gb = 1439128779363451 / 8796093022208,
                 free_gb = 4506766220858491 / 17592186044416,
                 percent_used = 39\<rparr>"
  have mem: "(str ''/dev/sdd1'', ?v) \<in> set [(str ''/dev/sdd1'', ?v)]" by simp
  have usage: "psutil_disk_usage env_float (str ''/'')
     = Inr \<lparr>total = 450736508928, used = 175670292480, free = 275066216448\<rparr>"
    by (simp add: env_float_def)
  from reported_sizes_add_up [OF usage_float mem]
  have "\<bar>used_gb ?v + free_gb ?v - total_gb ?v\<bar>
          \<le> 1 / 100 + (1 / 100 + used_gb ?v + free_gb ?v + total_gb ?v) / 2 ^ 50"
    by (auto simp: env_float_def)
  with usage_float usage show ?thesis by simp
qed

text \<open>
  C5. A SMART check whose utility is missing, timed out, returned a non-zero code or
  printed output that does not parse, returns the empty dict and leaves the monitor, and
  so its alert list, as it was; \<open>check_smart_data\<close> has no outcome other than a
  verdict, every exception of its body being caught. The empty dict has no key
  \<open>smart_status\<close>, while the verdict of a check that reports a failed status has it.
  The loop over the devices ends early only when a drive path cannot be formed, never
  because of a check. In a run that returns a report every key of the usage dict has a
  verdict, and it is the verdict of the check of its own drive path: the empty dict for
  a device whose check was unavailable, and for a device that reports a failed status the
  payload, with its SMART alert among the alerts of the run, wherever the device stands
  in the dict.
\<close>

theorem smart_failure_is_indeterminate:
  "((subprocess_run e (smartctl_argv p) = Inl FileNotFoundError
      \<or> subprocess_run e (smartctl_argv p) = Inl TimeoutExpired
      \<or> (\<exists>result. subprocess_run e (smartctl_argv p) = Inr result
            \<and> (returncode result \<noteq> 0 \<or> json_loads e (stdout result) = Inl JSONDecodeError)))
     \<longrightarrow> smart_unavailable e p)
   \<and> (smart_unavailable e p \<longrightarrow> check_smart_data e m p = (JObj [], m))
   \<and> py_in (str ''smart_status'') (JObj []) = Inr False
   \<and> (smart_status_failed e p \<longrightarrow>
        py_in (str ''smart_status'') (fst (check_smart_data e m p)) = Inr True)
   \<and> ((\<forall>dev\<in>set devs. \<not> isl (device_path_of dev)) \<longrightarrow>
        \<not> isl (fst (smart_loop e devs verdicts m)))
   \<and> (run_full_check e m = (Inr r, m') \<longrightarrow>
        fst ` set (smart_data r) = fst ` set (disk_usage r)
        \<and> (\<forall>dev\<in>fst ` set (disk_usage r). \<forall>path.
              device_path_of dev = Inr path \<and> smart_unavailable e path \<longrightarrow>
                map_of (smart_data r) dev = Some (JObj []))
        \<and> (\<forall>dev\<in>fst ` set (disk_usage r). \<forall>path.
              device_path_of dev = Inr path \<longrightarrow>
                map_of (smart_data r) dev = Some (fst (check_smart_data e m path))
                \<and> (smart_status_failed e path \<longrightarrow>
                     SmartAlert path \<in> set (drop (length (alerts m)) (report_alerts r)))))"
proof (intro conjI impI)
  assume "subprocess_run e (smartctl_argv p) = Inl FileNotFoundError
      \<or> subprocess_run e (smartctl_argv p) = Inl TimeoutExpired
      \<or> (\<exists>result. subprocess_run e (smartctl_argv p) = Inr result
            \<and> (returncode result \<noteq> 0 \<or> json_loads e (stdout result) = Inl JSONDecodeError))"
  then show "smart_unavailable e p"
    by (auto simp: smart_unavailable_def)
next
  assume "smart_unavailable e p"
  then show "check_smart_data e m p = (JObj [], m)" by (rule check_smart_data_unavailable)
next
  show "py_in (str ''smart_status'') (JObj []) = Inr False" by simp
next
  assume "smart_status_failed e p"
  then show "py_in (str ''smart_status'') (fst (check_smart_data e m p)) = Inr True"
    by (rule check_smart_data_failed)
next
  assume "\<forall>dev\<in>set devs. \<not> isl (device_path_of dev)"
  then show "\<not> isl (fst (smart_loop e devs verdicts m))" by (rule smart_loop_completes)
next
  assume run: "run_full_check e m = (Inr r, m')"
  then obtain m2 where
    loop: "smart_loop e (map fst (disk_usage r)) [] m2 = (Inr (smart_data r), m')"
    using run_full_check_smart_loop by blast
  from smart_loop_keys [OF loop]
  show "fst ` set (smart_data r) = fst ` set (disk_usage r)" by simp
  show "\<forall>dev\<in>fst ` set (disk_usage r). \<forall>path.
          device_path_of dev = Inr path \<and> smart_unavailable e path \<longrightarrow>
            map_of (smart_data r) dev = Some (JObj [])"
  proof (intro ballI allI impI)
    fix dev path
    assume dev: "dev \<in> fst ` set (disk_usage r)"
      and "device_path_of dev = Inr path \<and> smart_unavailable e path"
    then have path: "device_path_of dev = Inr path" and un: "smart_unavailable e path"
      by simp_all
    from dev have "dev \<in> set (map fst (disk_usage r))" by simp
    from smart_loop_unavailable [OF loop this path un]
    show "map_of (smart_data r) dev = Some (JObj [])" .
  qed
  show "\<forall>dev\<in>fst ` set (disk_usage r). \<forall>path.
          device_path_of dev = Inr path \<longrightarrow>
            map_of (smart_data r) dev = Some (fst (check_smart_data e m path))
            \<and> (smart_status_failed e path \<longrightarrow>
                 SmartAlert path \<in> set (drop (length (alerts m)) (report_alerts r)))"
  proof (intro ballI allI impI conjI)
    fix dev path
    assume dev: "dev \<in> fst ` set (disk_usage r)" and path: "device_path_of dev = Inr path"
    from dev have mem: "dev \<in> set (map fst (disk_usage r))" by simp
    from smart_loop_verdict [OF loop mem path]
    show "map_of (smart_data r) dev = Some (fst (check_smart_data e m path))" .
    assume "smart_status_failed e path"
    with path have "SmartAlert path \<in> set (smart_condition e dev)"
      by (simp add: smart_condition_def)
    with mem have "SmartAlert path \<in> set (raised_smart e (map fst (disk_usage r)))"
      unfolding raised_smart_def set_concat by (simp only: set_map) blast
    with run_full_check_alerts(1) [OF run]
    show "SmartAlert path \<in> set (drop (length (alerts m)) (report_alerts r))" by simp
  qed
qed

text \<open>
  In \<open>env_alerting\<close> the utility exits with code 2 for \<open>C:\<close>, the first
  device, and the second device is checked all the same; in \<open>env_quiet\<close> the utility
  is missing; in the two variants it times out and prints a lone brace.
\<close>

theorem smart_failure_is_indeterminate_witness:
  "subprocess_run env_alerting (smartctl_argv (str ''/dev/sdc''))
     = Inr \<lparr>returncode = 2, stdout = []\<rparr>
   \<and> smart_unavailable env_alerting (str ''/dev/sdc'')
   \<and> check_smart_data env_alerting monitor0 (str ''/dev/sdc'') = (JObj [], monitor0)
   \<and> smart_status_failed env_alerting (str ''/dev/sda1'')
   \<and> py_in (str ''smart_status'')
        (fst (check_smart_data env_alerting monitor0 (str ''/dev/sda1''))) = Inr True
   \<and> \<not> isl (fst (smart_loop env_alerting [str ''C:'', str ''/dev/sda1''] [] monitor0))
   \<and> run_full_check env_alerting monitor0
        = (Inr (report_alerting []), monitor0\<lparr>alerts := alerts_alerting\<rparr>)
   \<and> device_path_of (str ''C:'') = Inr (str ''/dev/sdc'')
   \<and> map_of (smart_data (report_alerting [])) (str ''C:'') = Some (JObj [])
   \<and> map_of (smart_data (report_alerting [])) (str ''/dev/sda1'') = Some smart_failing
   \<and> device_path_of (str ''/dev/sda1'') = Inr (str ''/dev/sda1'')
   \<and> map_of (smart_data (report_alerting [])) (str ''/dev/sda1'')
       = Some (fst (check_smart_data env_alerting monitor0 (str ''/dev/sda1'')))
   \<and> fst (check_smart_data env_alerting monitor0 (str ''/dev/sda1'')) = smart_failing
   \<and> SmartAlert (str ''/dev/sda1'')
       \<in> set (drop (length (alerts monitor0)) (report_alerts (report_alerting [])))
   \<and> subprocess_run env_quiet (smartctl_argv (str ''/dev/sdb1'')) = Inl FileNotFoundError
   \<and> smart_unavailable env_quiet (str ''/dev/sdb1'')
   \<and> check_smart_data env_quiet monitor0 (str ''/dev/sdb1'') = (JObj [], monitor0)
   \<and> smart_unavailable (env_quiet\<lparr>subprocess_run := \<lambda>argv. Inl TimeoutExpired\<rparr>) (str ''/dev/sdb1'')
   \<and> check_smart_data (env_quiet\<lparr>subprocess_run := \<lambda>argv. Inl TimeoutExpired\<rparr>) monitor0
        (str ''/dev/sdb1'') = (JObj [], monitor0)
   \<and> smart_unavailable
        (env_quiet\<lparr>subprocess_run := \<lambda>argv. Inr \<lparr>returncode = 0, stdout = str ''{''\<rparr>\<rparr>)
        (str ''/dev/sdb1'')
   \<and> check_smart_data
        (env_quiet\<lparr>subprocess_run := \<lambda>argv. Inr \<lparr>returncode = 0, stdout = str ''{''\<rparr>\<rparr>)
        monitor0 (str ''/dev/sdb1'') = (JObj [], monitor0)"
proof -
  let ?timeout = "env_quiet\<lparr>subprocess_run := \<lambda>argv. Inl TimeoutExpired\<rparr>"
  let ?garbled = "env_quiet\<lparr>subprocess_run := \<lambda>argv. Inr \<lparr>returncode = 0, stdout = str ''{''\<rparr>\<rparr>"
  have exited: "subprocess_run env_alerting (smartctl_argv (str ''/dev/sdc''))
     = Inr \<lparr>returncode = 2, stdout = []\<rparr>"
    by (simp add: env_alerting_def smartctl_argv_def str_def)
  then have exited': "\<exists>result. subprocess_run env_alerting (smartctl_argv (str ''/dev/sdc''))
        = Inr result
      \<and> (returncode result \<noteq> 0 \<or> json_loads env_alerting (stdout result) = Inl JSONDecodeError)"
    by simp
  have failed: "smart_status_failed env_alerting (str ''/dev/sda1'')"
    by (simp add: smart_status_failed_def env_alerting_def smart_failing_def)
  have paths: "\<forall>dev\<in>set [str ''C:'', str ''/dev/sda1'']. \<not> isl (device_path_of dev)"
    by (simp add: device_path_of_def endswith_def suffix_to_prefix py_chr_def str_def)
  have path: "device_path_of (str ''C:'') = Inr (str ''/dev/sdc'')"
    by (simp add: device_path_of_def endswith_def suffix_to_prefix py_chr_def str_def)
  have run: "run_full_check env_alerting monitor0
               = (Inr (report_alerting []), monitor0\<lparr>alerts := alerts_alerting\<rparr>)"
    using run_alerting [of "[]"] by (simp add: monitor0_def)
  have key: "str ''C:'' \<in> fst ` set (disk_usage (report_alerting []))"
    by (simp add: report_alerting_def)
  have missing: "subprocess_run env_quiet (smartctl_argv (str ''/dev/sdb1'')) = Inl FileNotFoundError"
    by (simp add: env_quiet_def)
  have timeout: "subprocess_run ?timeout (smartctl_argv (str ''/dev/sdb1'')) = Inl TimeoutExpired"
    by simp
  have garbled: "\<exists>result. subprocess_run ?garbled (smartctl_argv (str ''/dev/sdb1'')) = Inr result
      \<and> (returncode result \<noteq> 0 \<or> json_loads ?garbled (stdout result) = Inl JSONDecodeError)"
    by (simp add: env_quiet_def)
  note a = smart_failure_is_indeterminate [of env_alerting "str ''/dev/sdc''" monitor0
      "[str ''C:'', str ''/dev/sda1'']" "[]" "report_alerting []"
      "monitor0\<lparr>alerts := alerts_alerting\<rparr>"]
  note b = smart_failure_is_indeterminate [of env_alerting "str ''/dev/sda1''" monitor0
      "[]" "[]" "report_alerting []" "monitor0"]
  note c = smart_failure_is_indeterminate [of env_quiet "str ''/dev/sdb1''" monitor0
      "[]" "[]" "report_alerting []" "monitor0"]
  note d = smart_failure_is_indeterminate [of ?timeout "str ''/dev/sdb1''" monitor0
      "[]" "[]" "report_alerting []" "monitor0"]
  note f = smart_failure_is_indeterminate [of ?garbled "str ''/dev/sdb1''" monitor0
      "[]" "[]" "report_alerting []" "monitor0"]
  from a exited' have 1: "smart_unavailable env_alerting (str ''/dev/sdc'')" by blast
  with a have 2: "check_smart_data env_alerting monitor0 (str ''/dev/sdc'') = (JObj [], monitor0)"
    by blast
  from b failed have 3: "py_in (str ''smart_status'')
        (fst (check_smart_data env_alerting monitor0 (str ''/dev/sda1''))) = Inr True" by blast
  from a paths have 4:
    "\<not> isl (fst (smart_loop env_alerting [str ''C:'', str ''/dev/sda1''] [] monitor0))" by blast
  from a run key path 1 have 5:
    "map_of (smart_data (report_alerting [])) (str ''C:'') = Some (JObj [])" by blast
  have 6: "map_of (smart_data (report_alerting [])) (str ''/dev/sda1'') = Some smart_failing"
    by (simp add: report_alerting_def str_def)
  have key2: "str ''/dev/sda1'' \<in> fst ` set (disk_usage (report_alerting []))"
    by (simp add: report_alerting_def)
  have path2: "device_path_of (str ''/dev/sda1'') = Inr (str ''/dev/sda1'')"
    by (simp add: device_path_of_def endswith_def suffix_to_prefix str_def)
  from a run key2 path2 have 13: "map_of (smart_data (report_alerting [])) (str ''/dev/sda1'')
       = Some (fst (check_smart_data env_alerting monitor0 (str ''/dev/sda1'')))" by blast
  with 6 have 14: "fst (check_smart_data env_alerting monitor0 (str ''/dev/sda1'')) = smart_failing"
    by simp
  from a run key2 path2 failed have 15: "SmartAlert (str ''/dev/sda1'')
       \<in> set (drop (length (alerts monitor0)) (report_alerts (report_alerting [])))" by blast
  from c missing have 7: "smart_unavailable env_quiet (str ''/dev/sdb1'')" by blast
  with c have 8: "check_smart_data env_quiet monitor0 (str ''/dev/sdb1'') = (JObj [], monitor0)"
    by blast
  from d timeout have 9: "smart_unavailable ?timeout (str ''/dev/sdb1'')" by blast
  with d have 10: "check_smart_data ?timeout monitor0 (str ''/dev/sdb1'') = (JObj [], monitor0)"
    by blast
  from f garbled have 11: "smart_unavailable ?garbled (str ''/dev/sdb1'')" by blast
  with f have 12: "check_smart_data ?garbled monitor0 (str ''/dev/sdb1'') = (JObj [], monitor0)"
    by blast
  from exited 1 2 failed 3 4 run path 5 6 path2 13 14 15 missing 7 8 9 10 11 12
  show ?thesis by blast
qed

lemma raised_usage_category: "\<forall>a\<in>set (raised_usage e thr). category_of a = Usage"
  by (auto simp: raised_usage_def usage_condition_def split: sum.splits if_splits)

lemma raised_temperature_category:
  "\<forall>a\<in>set (raised_temperature e thr). category_of a = Temperature"
  by (auto simp: raised_temperature_def group_conditions_def sensor_condition_def
      split: sum.splits if_splits)

lemma raised_smart_category: "\<forall>a\<in>set (raised_smart e devs). category_of a = Smart"
  by (auto simp: raised_smart_def smart_condition_def split: sum.splits if_splits)

lemma three_groups_in_order:
  assumes "\<forall>a\<in>set us. category_of a = Usage" and "\<forall>a\<in>set ts. category_of a = Temperature"
    and "\<forall>a\<in>set ss. category_of a = Smart"
  shows "in_collection_order (us @ ts @ ss)"
proof -
  have u: "map (\<lambda>a. category_rank (category_of a)) us = replicate (length us) 0"
    using assms(1) by (simp add: map_replicate_const [symmetric])
  have t: "map (\<lambda>a. category_rank (category_of a)) ts = replicate (length ts) 1"
    using assms(2) by (simp add: map_replicate_const [symmetric])
  have s: "map (\<lambda>a. category_rank (category_of a)) ss = replicate (length ss) 2"
    using assms(3) by (simp add: map_replicate_const [symmetric])
  show ?thesis
    unfolding in_collection_order_def map_append u t s
    by (auto simp: sorted_append)
qed

text \<open>
  C9. The claim: in the alert list of every run the usage alerts come before the
  temperature alerts and these before the SMART alerts. The list belongs to the monitor
  and a run appends to what is already there: when \<open>run_full_check\<close> is called a
  second time on the monitor of \<open>main\<close>, the report lists the SMART alert of the
  first run before the usage alerts of the second.
\<close>

theorem alerts_order_second_run_counterexample:
  "run_full_check env_alerting monitor0
     = (Inr (report_alerting []), monitor0\<lparr>alerts := alerts_alerting\<rparr>)
   \<and> run_full_check env_alerting (monitor0\<lparr>alerts := alerts_alerting\<rparr>)
     = (Inr (report_alerting alerts_alerting),
        monitor0\<lparr>alerts := alerts_alerting @ alerts_alerting\<rparr>)
   \<and> map category_of (report_alerts (report_alerting alerts_alerting))
     = [Usage, Usage, Temperature, Smart, Usage, Usage, Temperature, Smart]
   \<and> \<not> in_collection_order (report_alerts (report_alerting alerts_alerting))"
proof -
  have first: "run_full_check env_alerting monitor0
               = (Inr (report_alerting []), monitor0\<lparr>alerts := alerts_alerting\<rparr>)"
    using run_alerting [of "[]"] by (simp add: monitor0_def)
  have second: "run_full_check env_alerting (monitor0\<lparr>alerts := alerts_alerting\<rparr>)
     = (Inr (report_alerting alerts_alerting),
        monitor0\<lparr>alerts := alerts_alerting @ alerts_alerting\<rparr>)"
    using run_alerting [of alerts_alerting] by (simp add: monitor0_def)
  have cats: "map category_of (report_alerts (report_alerting alerts_alerting))
     = [Usage, Usage, Temperature, Smart, Usage, Usage, Temperature, Smart]"
    by (simp add: report_alerting_def alerts_alerting_def)
  have "\<not> in_collection_order (report_alerts (report_alerting alerts_alerting))"
    by (simp add: in_collection_order_def report_alerting_def alerts_alerting_def)
  with first second cats show ?thesis by blast
qed

text \<open>
  C9, as the code has it: the alert list of a report is the list that the monitor held
  before the run followed by the conditions of this run, one entry for each and none
  left out or merged: first those of the partitions in partition order, all of them usage
  alerts, then those of the storage sensors in sensor order, all of them temperature
  alerts, then those of the devices of the usage dict in key order, all of them SMART
  alerts. So what a run appends is in collection order, and the whole list is when the
  monitor held no alert before the run.
\<close>

theorem alerts_follow_collection_order:
  assumes "run_full_check e m = (Inr r, m')"
  shows "report_alerts r = alerts m @ raised_usage e (usage_threshold m)
           @ raised_temperature e (temp_threshold m) @ raised_smart e (map fst (disk_usage r))
         \<and> (\<forall>a\<in>set (raised_usage e (usage_threshold m)). category_of a = Usage)
         \<and> (\<forall>a\<in>set (raised_temperature e (temp_threshold m)). category_of a = Temperature)
         \<and> (\<forall>a\<in>set (raised_smart e (map fst (disk_usage r))). category_of a = Smart)
         \<and> in_collection_order (raised_usage e (usage_threshold m)
             @ raised_temperature e (temp_threshold m) @ raised_smart e (map fst (disk_usage r)))
         \<and> (alerts m = [] \<longrightarrow> in_collection_order (report_alerts r))"
proof -
  note eq = run_full_check_alerts(1) [OF assms]
  note cats = raised_usage_category [of e "usage_threshold m"]
    raised_temperature_category [of e "temp_threshold m"]
    raised_smart_category [of e "map fst (disk_usage r)"]
  note ord = three_groups_in_order [OF cats]
  from eq ord have "alerts m = [] \<longrightarrow> in_collection_order (report_alerts r)" by simp
  with eq cats ord show ?thesis by blast
qed

text \<open>
  In \<open>env_alerting\<close> the device \<open>/dev/sda1\<close> raises three conditions, two of
  them equal, and the report keeps all three.
\<close>

theorem alerts_follow_collection_order_witness:
  "run_full_check env_alerting monitor0
     = (Inr (report_alerting []), monitor0\<lparr>alerts := alerts_alerting\<rparr>)
   \<and> alerts monitor0 = []
   \<and> raised_usage env_alerting (usage_threshold monitor0)
       = [UsageAlert (str ''/dev/sda1'') 90 85, UsageAlert (str ''/dev/sda1'') 90 85]
   \<and> raised_temperature env_alerting (temp_threshold monitor0)
       = [TemperatureAlert (str ''nvme'') 80 75]
   \<and> raised_smart env_alerting (map fst (disk_usage (report_alerting [])))
       = [SmartAlert (str ''/dev/sda1'')]
   \<and> report_alerts (report_alerting [])
       = [UsageAlert (str ''/dev/sda1'') 90 85, UsageAlert (str ''/dev/sda1'') 90 85,
          TemperatureAlert (str ''nvme'') 80 75, SmartAlert (str ''/dev/sda1'')]
   \<and> in_collection_order (report_alerts (report_alerting []))"
proof -
  have run: "run_full_check env_alerting monitor0
               = (Inr (report_alerting []), monitor0\<lparr>alerts := alerts_alerting\<rparr>)"
    using run_alerting [of "[]"] by (simp add: monitor0_def)
  have empty: "alerts monitor0 = []" by (simp add: monitor0_def)
  have u: "raised_usage env_alerting (usage_threshold monitor0)
       = [UsageAlert (str ''/dev/sda1'') 90 85, UsageAlert (str ''/dev/sda1'') 90 85]"
    by (simp add: raised_usage_def usage_condition_def usage_percent_def env_alerting_def
        monitor0_def str_def float_simps)
  have t: "raised_temperature env_alerting (temp_threshold monitor0)
       = [TemperatureAlert (str ''nvme'') 80 75]"
    by (simp add: raised_temperature_def group_conditions_def sensor_condition_def
        storage_sensor_def storage_keywords_def lower_def lower_char_def env_alerting_def
        monitor0_def str_def)
  have s: "raised_smart env_alerting (map fst (disk_usage (report_alerting [])))
       = [SmartAlert (str ''/dev/sda1'')]"
    by (simp add: raised_smart_def smart_condition_def smart_status_failed_def
        device_path_of_def endswith_def suffix_to_prefix py_chr_def smartctl_argv_def
        env_alerting_def report_alerting_def smart_failing_def str_def)
  from alerts_follow_collection_order [OF run] empty u t s
  have "report_alerts (report_alerting [])
       = [UsageAlert (str ''/dev/sda1'') 90 85, UsageAlert (str ''/dev/sda1'') 90 85,
          TemperatureAlert (str ''nvme'') 80 75, SmartAlert (str ''/dev/sda1'')]"
    and "in_collection_order (report_alerts (report_alerting []))"
    by simp_all
  with run empty u t s show ?thesis by blast
qed

lemma usage_step_prefix: "prefix (alerts m) (alerts (snd (usage_step e part um m)))"
  by (simp add: usage_step_def Let_def split: sum.splits)

lemma usage_loop_prefix: "prefix (alerts m) (alerts (snd (usage_loop e ps um m)))"
proof (induction ps arbitrary: um m)
  case Nil
  then show ?case by simp
next
  case (Cons p ps)
  obtain res m1 where step: "usage_step e p um m = (res, m1)" by (cases "usage_step e p um m")
  with usage_step_prefix [of m e p um] have here: "prefix (alerts m) (alerts m1)" by simp
  show ?case
  proof (cases res)
    case (Inl err)
    with step here show ?thesis by simp
  next
    case (Inr um1)
    with step have "usage_loop e (p # ps) um m = usage_loop e ps um1 m1" by simp
    with prefix_order.trans [OF here Cons.IH [of m1 um1]] show ?thesis by simp
  qed
qed

lemma get_drive_temperatures_prefix:
  "prefix (alerts m) (alerts (snd (get_drive_temperatures e m)))"
  using get_drive_temperatures_alerts [of e m "fst (get_drive_temperatures e m)"
      "snd (get_drive_temperatures e m)"]
  by (metis monitor.select_convs(3) monitor.surjective monitor.update_convs(3) prefixI
      prod.collapse)

lemma check_smart_data_prefix:
  "prefix (alerts m) (alerts (snd (check_smart_data e m p)))"
  by (simp add: check_smart_data_alerts)

lemma smart_loop_prefix: "prefix (alerts m) (alerts (snd (smart_loop e devs sd m)))"
proof (induction devs arbitrary: sd m)
  case Nil
  then show ?case by simp
next
  case (Cons d ds)
  show ?case
  proof (cases "device_path_of d")
    case (Inl err)
    then show ?thesis by simp
  next
    case (Inr p)
    obtain v m1 where chk: "check_smart_data e m p = (v, m1)" by (cases "check_smart_data e m p")
    with check_smart_data_prefix [of m e p] have here: "prefix (alerts m) (alerts m1)" by simp
    from Inr chk have "smart_loop e (d # ds) sd m = smart_loop e ds (AList.update d v sd) m1"
      by simp
    with prefix_order.trans [OF here Cons.IH [of m1 "AList.update d v sd"]] show ?thesis by simp
  qed
qed

lemma run_full_check_prefix: "prefix (alerts m) (alerts (snd (run_full_check e m)))"
proof -
  obtain ru m1 where u: "get_disk_usage e m = (ru, m1)" by (cases "get_disk_usage e m")
  with usage_loop_prefix [of m e "psutil_disk_partitions e" "[]"]
  have p1: "prefix (alerts m) (alerts m1)" by (simp add: get_disk_usage_def)
  show ?thesis
  proof (cases ru)
    case (Inl err)
    with u p1 show ?thesis by (simp add: run_full_check_def)
  next
    case (Inr um)
    obtain ts m2 where t: "get_drive_temperatures e m1 = (ts, m2)"
      by (cases "get_drive_temperatures e m1")
    with get_drive_temperatures_prefix [of m1 e] have p2: "prefix (alerts m1) (alerts m2)"
      by simp
    obtain rs m3 where s: "smart_loop e (map fst um) [] m2 = (rs, m3)"
      by (cases "smart_loop e (map fst um) [] m2")
    with smart_loop_prefix [of m2 e "map fst um" "[]"] have p3: "prefix (alerts m2) (alerts m3)"
      by simp
    from p1 p2 p3 have "prefix (alerts m) (alerts m3)" by (meson prefix_order.trans)
    with u Inr t s show ?thesis by (cases rs) (simp_all add: run_full_check_def)
  qed
qed

text \<open>
  C10. A new monitor holds no alert, and every operation that takes the monitor returns
  it with an alert list that extends the one it got, whether it returns or raises: no
  operation clears the list. When \<open>run_full_check\<close> returns a report twice on the same
  monitor, the alerts of the first report are the first alerts of the second report, and
  the second report is not healthy when the first one had an alert.
\<close>

theorem alerts_are_never_cleared:
  "(SSDHealthMonitor_init temp_thr usage_thr = Inr new \<longrightarrow> alerts new = [])
   \<and> prefix (alerts m) (alerts (snd (get_disk_usage e m)))
   \<and> prefix (alerts m) (alerts (snd (get_drive_temperatures e m)))
   \<and> prefix (alerts m) (alerts (snd (check_smart_data e m p)))
   \<and> prefix (alerts m) (alerts (snd (run_full_check e m)))
   \<and> (run_full_check e m = (Inr r1, m1) \<and> run_full_check e2 m1 = (Inr r2, m2) \<longrightarrow>
        prefix (report_alerts r1) (report_alerts r2)
        \<and> (report_alerts r1 \<noteq> [] \<longrightarrow> \<not> healthy r2))"
proof (intro conjI impI)
  assume "SSDHealthMonitor_init temp_thr usage_thr = Inr new"
  then show "alerts new = []" by (auto simp: SSDHealthMonitor_init_def)
next
  show "prefix (alerts m) (alerts (snd (get_disk_usage e m)))"
    unfolding get_disk_usage_def by (rule usage_loop_prefix)
  show "prefix (alerts m) (alerts (snd (get_drive_temperatures e m)))"
    by (rule get_drive_temperatures_prefix)
  show "prefix (alerts m) (alerts (snd (check_smart_data e m p)))"
    by (rule check_smart_data_prefix)
  show "prefix (alerts m) (alerts (snd (run_full_check e m)))"
    by (rule run_full_check_prefix)
next
  assume runs: "run_full_check e m = (Inr r1, m1) \<and> run_full_check e2 m1 = (Inr r2, m2)"
  then have first: "run_full_check e m = (Inr r1, m1)"
    and second: "run_full_check e2 m1 = (Inr r2, m2)" by simp_all
  from run_full_check_alerts(2) [OF first] have held: "alerts m1 = report_alerts r1" by simp
  from run_full_check_alerts(2) [OF second] have "alerts m2 = report_alerts r2" by simp
  with run_full_check_prefix [of m1 e2] second held
  show pre: "prefix (report_alerts r1) (report_alerts r2)" by simp
  assume "report_alerts r1 \<noteq> []"
  with pre have "report_alerts r2 \<noteq> []" by auto
  with run_full_check_alerts(3) [OF second] show "\<not> healthy r2" by simp
qed

text \<open>
  After the run in \<open>env_alerting\<close>, the run in \<open>env_quiet\<close> raises nothing and
  still reports the four alerts and \<open>healthy = False\<close>; on a new monitor the same
  environment gives a healthy report.
\<close>

theorem alerts_are_never_cleared_witness:
  "SSDHealthMonitor_init 75 85 = Inr monitor0
   \<and> alerts monitor0 = []
   \<and> run_full_check env_alerting monitor0
       = (Inr (report_alerting []), monitor0\<lparr>alerts := alerts_alerting\<rparr>)
   \<and> run_full_check env_quiet (monitor0\<lparr>alerts := alerts_alerting\<rparr>)
       = (Inr (report_quiet alerts_alerting), monitor0\<lparr>alerts := alerts_alerting\<rparr>)
   \<and> report_alerts (report_alerting []) = alerts_alerting
   \<and> report_alerts (report_quiet alerts_alerting) = alerts_alerting
   \<and> prefix (report_alerts (report_alerting [])) (report_alerts (report_quiet alerts_alerting))
   \<and> \<not> healthy (report_quiet alerts_alerting)
   \<and> run_full_check env_quiet monitor0 = (Inr (report_quiet []), monitor0)
   \<and> healthy (report_quiet [])"
proof -
  have init: "SSDHealthMonitor_init 75 85 = Inr monitor0"
    by (simp add: SSDHealthMonitor_init_def monitor0_def)
  have first: "run_full_check env_alerting monitor0
               = (Inr (report_alerting []), monitor0\<lparr>alerts := alerts_alerting\<rparr>)"
    using run_alerting [of "[]"] by (simp add: monitor0_def)
  have second: "run_full_check env_quiet (monitor0\<lparr>alerts := alerts_alerting\<rparr>)
       = (Inr (report_quiet alerts_alerting), monitor0\<lparr>alerts := alerts_alerting\<rparr>)"
    using run_quiet [of alerts_alerting] by (simp add: monitor0_def)
  have fresh: "run_full_check env_quiet monitor0 = (Inr (report_quiet []), monitor0)"
    using run_quiet [of "[]"] by (simp add: monitor0_def)
  have a1: "report_alerts (report_alerting []) = alerts_alerting"
    by (simp add: report_alerting_def)
  have a2: "report_alerts (report_quiet alerts_alerting) = alerts_alerting"
    by (simp add: report_quiet_def)
  have ne: "report_alerts (report_alerting []) \<noteq> []"
    by (simp add: report_alerting_def alerts_alerting_def)
  have h: "healthy (report_quiet [])" by (simp add: report_quiet_def)
  note inst = alerts_are_never_cleared [of 75 85 monitor0 monitor0 env_alerting "[]"
      "report_alerting []" "monitor0\<lparr>alerts := alerts_alerting\<rparr>" env_quiet
      "report_quiet alerts_alerting" "monitor0\<lparr>alerts := alerts_alerting\<rparr>"]
  from inst init have e: "alerts monitor0 = []" by blast
  from inst first second have
    p: "prefix (report_alerts (report_alerting [])) (report_alerts (report_quiet alerts_alerting))"
    by blast
  from inst first second ne have u: "\<not> healthy (report_quiet alerts_alerting)" by blast
  from init e first second a1 a2 p u fresh h show ?thesis by blast
qed

end
